theory Spec2Isabelle
  imports Complex_Main "HOL-Library.AList"
begin

section \<open>Values, dictionaries and Python's dynamic checks\<close>

text \<open>
  The state manager (\<^verbatim>\<open>trader/state_manager.py\<close>) stores JSON-like Python values:
  nested dicts, lists, strings, numbers, booleans and \<^verbatim>\<open>None\<close>. A dict is an
  association list in insertion order, as Python keeps it. Python's \<^verbatim>\<open>int\<close> and
  \<^verbatim>\<open>float\<close> are both exact rationals here: rounding of floating-point
  arithmetic is not modelled. Values are immutable: aliasing between a caller's dict and
  the dict the store keeps is not modelled.
\<close>

datatype json =
    JNull
  | JBool bool
  | JNum rat
  | JStr string
  | JArr "json list"
  | JObj "(string \<times> json) list"

type_synonym dict = "(string \<times> json) list"

datatype error =
    TypeError
  | AttributeError
  | KeyError
  | ZeroDivisionError
  | JSONDecodeError

text \<open>Python's truth value of an object (\<^verbatim>\<open>if not x\<close>).\<close>

fun truthy :: "json \<Rightarrow> bool" where
  "truthy JNull = False"
| "truthy (JBool b) = b"
| "truthy (JNum x) = (x \<noteq> 0)"
| "truthy (JStr s) = (s \<noteq> [])"
| "truthy (JArr xs) = (xs \<noteq> [])"
| "truthy (JObj d) = (d \<noteq> [])"

text \<open>The numeric value of an object in arithmetic: \<^verbatim>\<open>bool\<close> is a subclass of
  \<^verbatim>\<open>int\<close>; every other non-number raises \<^verbatim>\<open>TypeError\<close> (\<open>None\<close> here).\<close>

fun num_of :: "json \<Rightarrow> rat option" where
  "num_of (JNum x) = Some x"
| "num_of (JBool b) = Some (if b then 1 else 0)"
| "num_of _ = None"

text \<open>\<^verbatim>\<open>d[k] = v\<close>: an existing key keeps its place, a new key goes last.\<close>

definition dict_set :: "string \<Rightarrow> json \<Rightarrow> dict \<Rightarrow> dict" where
  "dict_set k v d = AList.update k v d"

text \<open>\<^verbatim>\<open>d.update(data)\<close> for a dict \<^verbatim>\<open>data\<close>: its items are stored in order.\<close>

definition dict_update :: "dict \<Rightarrow> dict \<Rightarrow> dict" where
  "dict_update d data = fold (\<lambda>(k, v). dict_set k v) data d"

text \<open>\<^verbatim>\<open>d.get(k, default)\<close>.\<close>

definition dict_get :: "dict \<Rightarrow> string \<Rightarrow> json \<Rightarrow> json" where
  "dict_get d k dflt = (case map_of d k of None \<Rightarrow> dflt | Some v \<Rightarrow> v)"

text \<open>\<^verbatim>\<open>max(a, b)\<close> on two numbers returns \<^verbatim>\<open>a\<close> unless \<^verbatim>\<open>b > a\<close>.\<close>

definition py_max :: "json \<Rightarrow> json \<Rightarrow> error + json" where
  "py_max a b =
     (case (num_of a, num_of b) of
        (Some x, Some y) \<Rightarrow> Inr (if y > x then b else a)
      | _ \<Rightarrow> Inl TypeError)"

text \<open>Iterating an object (\<^verbatim>\<open>deque(iterable)\<close>, \<^verbatim>\<open>list.extend\<close>): a list yields
  its elements, a string its characters, a dict its keys; nothing else is iterable.\<close>

fun py_iter :: "json \<Rightarrow> error + json list" where
  "py_iter (JArr xs) = Inr xs"
| "py_iter (JStr s) = Inr (map (\<lambda>c. JStr [c]) s)"
| "py_iter (JObj d) = Inr (map (\<lambda>(k, v). JStr k) d)"
| "py_iter _ = Inl TypeError"

text \<open>\<^verbatim>\<open>x += y\<close>: numbers add, strings concatenate, a list is extended by any
  iterable; every other combination raises \<^verbatim>\<open>TypeError\<close>.\<close>

fun py_iadd :: "json \<Rightarrow> json \<Rightarrow> error + json" where
  "py_iadd (JStr a) (JStr b) = Inr (JStr (a @ b))"
| "py_iadd (JArr a) y = (case py_iter y of Inl e \<Rightarrow> Inl e | Inr ys \<Rightarrow> Inr (JArr (a @ ys)))"
| "py_iadd x y =
     (case (num_of x, num_of y) of
        (Some a, Some b) \<Rightarrow> Inr (JNum (a + b))
      | _ \<Rightarrow> Inl TypeError)"

text \<open>\<^verbatim>\<open>obj[k] += y\<close> on a stored object: subscripting a non-dict with a string
  raises \<^verbatim>\<open>TypeError\<close>, a missing key raises \<^verbatim>\<open>KeyError\<close>.\<close>

definition item_iadd :: "json \<Rightarrow> string \<Rightarrow> json \<Rightarrow> error + json" where
  "item_iadd obj k y =
     (case obj of
        JObj d \<Rightarrow>
          (case map_of d k of
             None \<Rightarrow> Inl KeyError
           | Some x \<Rightarrow>
               (case py_iadd x y of
                  Inl e \<Rightarrow> Inl e
                | Inr z \<Rightarrow> Inr (JObj (dict_set k z d))))
      | _ \<Rightarrow> Inl TypeError)"

text \<open>\<^verbatim>\<open>obj.update(data)\<close> on a stored object: only a dict has the method.\<close>

definition obj_update :: "json \<Rightarrow> dict \<Rightarrow> error + json" where
  "obj_update obj data =
     (case obj of JObj d \<Rightarrow> Inr (JObj (dict_update d data)) | _ \<Rightarrow> Inl AttributeError)"

text \<open>\<^verbatim>\<open>obj.copy()\<close>: dicts and lists have it, nothing else does.\<close>

fun py_copy :: "json \<Rightarrow> error + json" where
  "py_copy (JObj d) = Inr (JObj d)"
| "py_copy (JArr xs) = Inr (JArr xs)"
| "py_copy _ = Inl AttributeError"

section \<open>The bounded logs\<close>

text \<open>\<^verbatim>\<open>collections.deque(maxlen=n)\<close>: \<^verbatim>\<open>append\<close> adds on the right and, when the
  length then exceeds \<^verbatim>\<open>maxlen\<close>, drops the leftmost entry.\<close>

definition deque_append :: "nat \<Rightarrow> 'a \<Rightarrow> 'a list \<Rightarrow> 'a list" where
  "deque_append n x xs = (let ys = xs @ [x] in if length ys > n then tl ys else ys)"

text \<open>\<^verbatim>\<open>deque(iterable, maxlen=n)\<close> appends the items one by one.\<close>

definition deque_of :: "nat \<Rightarrow> 'a list \<Rightarrow> 'a list" where
  "deque_of n xs = fold (deque_append n) xs []"

section \<open>The store\<close>

record store =
  max_history :: nat
  system_status :: json
  positions :: json
  predictions :: json
  trading_history :: "json list"
  strategy_logs :: "json list"
  performance_stats :: json
  risk_metrics :: json

text \<open>\<^verbatim>\<open>StateManager.__init__(max_history)\<close>.\<close>

definition init_store :: "nat \<Rightarrow> store" where
  "init_store n =
     \<lparr> max_history = n,
       system_status = JObj
         [(''is_running'', JBool False),
          (''last_update'', JNull),
          (''last_strategy_run'', JNull),
          (''next_strategy_run'', JNull),
          (''simulation_mode'', JBool True),
          (''error_count'', JNum 0),
          (''total_runs'', JNum 0)],
       positions = JObj [],
       predictions = JObj [],
       trading_history = [],
       strategy_logs = [],
       performance_stats = JObj
         [(''total_trades'', JNum 0),
          (''successful_trades'', JNum 0),
          (''failed_trades'', JNum 0),
          (''total_profit_loss'', JNum 0),
          (''total_volume'', JNum 0),
          (''start_balance'', JNum 0),
          (''current_balance'', JNum 0)],
       risk_metrics = JObj
         [(''total_exposure'', JNum 0),
          (''max_single_position'', JNum 0),
          (''position_count'', JNum 0),
          (''usdt_reserve'', JNum 0),
          (''total_value'', JNum 0)] \<rparr>"

text \<open>A handler that raises keeps what it had already written: the outcome of a
  handler is the raised error, if any, and the store as the handler left it.\<close>

type_synonym outcome = "error option \<times> store"

subsection \<open>Risk metrics\<close>

record risk_acc =
  acc_total :: rat
  acc_max :: json
  acc_count :: nat
  acc_reserve :: json

text \<open>The body of the loop of \<^verbatim>\<open>_calculate_risk_metrics\<close> over
  \<^verbatim>\<open>self.positions.items()\<close>.\<close>

fun risk_loop :: "dict \<Rightarrow> risk_acc \<Rightarrow> error + risk_acc" where
  "risk_loop [] a = Inr a"
| "risk_loop ((asset, info) # rest) a =
     (case info of
        JObj i \<Rightarrow>
          (let usd_value = dict_get i ''usd_value'' (JNum 0) in
           case num_of usd_value of
             None \<Rightarrow> Inl TypeError
           | Some x \<Rightarrow>
               (let a1 = a\<lparr>acc_total := acc_total a + x\<rparr> in
                if asset = ''USDT'' then risk_loop rest (a1\<lparr>acc_reserve := usd_value\<rparr>)
                else
                  (case py_max (acc_max a1) usd_value of
                     Inl e \<Rightarrow> Inl e
                   | Inr m \<Rightarrow>
                       risk_loop rest (a1\<lparr>acc_count := acc_count a1 + 1, acc_max := m\<rparr>))))
      | _ \<Rightarrow> Inl AttributeError)"

definition risk_acc0 :: risk_acc where
  "risk_acc0 = \<lparr> acc_total = 0, acc_max = JNum 0, acc_count = 0, acc_reserve = JNum 0 \<rparr>"

definition calculate_risk_metrics :: "store \<Rightarrow> outcome" where
  "calculate_risk_metrics s =
     (if \<not> truthy (positions s) then (None, s)
      else
        (case positions s of
           JObj p \<Rightarrow>
             (case risk_loop p risk_acc0 of
                Inl e \<Rightarrow> (Some e, s)
              | Inr a \<Rightarrow>
                  (case num_of (acc_reserve a) of
                     None \<Rightarrow> (Some TypeError, s)
                   | Some r \<Rightarrow>
                       (let total_exposure =
                              (if acc_total a > 0 then (acc_total a - r) / acc_total a else 0)
                        in case obj_update (risk_metrics s)
                                  [(''total_exposure'', JNum total_exposure),
                                   (''max_single_position'', acc_max a),
                                   (''position_count'', JNum (of_nat (acc_count a))),
                                   (''usdt_reserve'', acc_reserve a),
                                   (''total_value'', JNum (acc_total a))] of
                             Inl e \<Rightarrow> (Some e, s)
                           | Inr rm \<Rightarrow> (None, s\<lparr>risk_metrics := rm\<rparr>))))
         | _ \<Rightarrow> (Some AttributeError, s)))"

subsection \<open>The handlers of \<^verbatim>\<open>update_state\<close>\<close>

definition update_system_status :: "dict \<Rightarrow> store \<Rightarrow> outcome" where
  "update_system_status data s =
     (case obj_update (system_status s) data of
        Inl e \<Rightarrow> (Some e, s)
      | Inr v \<Rightarrow> (None, s\<lparr>system_status := v\<rparr>))"

definition update_positions :: "dict \<Rightarrow> store \<Rightarrow> outcome" where
  "update_positions data s = calculate_risk_metrics (s\<lparr>positions := JObj data\<rparr>)"

definition update_predictions :: "dict \<Rightarrow> store \<Rightarrow> outcome" where
  "update_predictions data s = (None, s\<lparr>predictions := JObj data\<rparr>)"

text \<open>\<^verbatim>\<open>{"timestamp": now, **data}\<close>.\<close>

definition stamped :: "string \<Rightarrow> dict \<Rightarrow> json" where
  "stamped now data = JObj (dict_update [(''timestamp'', JStr now)] data)"

definition record_trade :: "string \<Rightarrow> dict \<Rightarrow> store \<Rightarrow> outcome" where
  "record_trade now trade_data s =
     (let s1 = s\<lparr>trading_history :=
                   deque_append (max_history s) (stamped now trade_data) (trading_history s)\<rparr>
      in case item_iadd (performance_stats s1) ''total_trades'' (JNum 1) of
           Inl e \<Rightarrow> (Some e, s1)
         | Inr p2 \<Rightarrow>
             (let s2 = s1\<lparr>performance_stats := p2\<rparr>;
                  counter = (if map_of trade_data ''status'' = Some (JStr ''success'')
                             then ''successful_trades'' else ''failed_trades'')
              in case item_iadd (performance_stats s2) counter (JNum 1) of
                   Inl e \<Rightarrow> (Some e, s2)
                 | Inr p3 \<Rightarrow>
                     (let s3 = s2\<lparr>performance_stats := p3\<rparr> in
                      case map_of trade_data ''volume_usdt'' of
                        None \<Rightarrow> (None, s3)
                      | Some v \<Rightarrow>
                          (case item_iadd (performance_stats s3) ''total_volume'' v of
                             Inl e \<Rightarrow> (Some e, s3)
                           | Inr p4 \<Rightarrow> (None, s3\<lparr>performance_stats := p4\<rparr>)))))"

definition add_strategy_log :: "string \<Rightarrow> dict \<Rightarrow> store \<Rightarrow> outcome" where
  "add_strategy_log now log_data s =
     (None, s\<lparr>strategy_logs :=
                 deque_append (max_history s) (stamped now log_data) (strategy_logs s)\<rparr>)"

definition update_performance :: "dict \<Rightarrow> store \<Rightarrow> outcome" where
  "update_performance data s =
     (case obj_update (performance_stats s) data of
        Inl e \<Rightarrow> (Some e, s)
      | Inr v \<Rightarrow> (None, s\<lparr>performance_stats := v\<rparr>))"

definition update_risk_metrics :: "dict \<Rightarrow> store \<Rightarrow> outcome" where
  "update_risk_metrics data s =
     (case obj_update (risk_metrics s) data of
        Inl e \<Rightarrow> (Some e, s)
      | Inr v \<Rightarrow> (None, s\<lparr>risk_metrics := v\<rparr>))"

subsection \<open>\<^verbatim>\<open>update_state\<close>\<close>

text \<open>
  The argument \<^verbatim>\<open>state_data\<close>: \<open>ev_type\<close> is \<^verbatim>\<open>state_data.get("type")\<close>
  (\<open>None\<close> when the key is absent) and \<open>ev_data\<close> is the value under
  \<^verbatim>\<open>"data"\<close> (\<open>None\<close> when absent, which the code reads as \<^verbatim>\<open>{}\<close>). The payload
  is a dict, as the signature \<^verbatim>\<open>data: dict\<close> of every handler declares.
\<close>

record event =
  ev_type :: "json option"
  ev_data :: "dict option"

text \<open>What a call does besides changing the store, in program order: taking and
  releasing \<^verbatim>\<open>self.lock\<close>, and the HTTP POST of \<^verbatim>\<open>_push_to_webui\<close>.\<close>

datatype effect = Acquire | Release | Post event

record result =
  raised :: "error option"
  after :: store
  effects :: "effect list"

text \<open>The \<^verbatim>\<open>if\<close>/\<^verbatim>\<open>elif\<close> chain. \<open>t_rec\<close> is what \<^verbatim>\<open>datetime.now().isoformat()\<close>
  returns inside a handler.\<close>

definition dispatch :: "string \<Rightarrow> event \<Rightarrow> store \<Rightarrow> outcome" where
  "dispatch t_rec e s =
     (let update_type = ev_type e;
          data = (case ev_data e of None \<Rightarrow> [] | Some d \<Rightarrow> d)
      in if update_type = Some (JStr ''system_status'') then update_system_status data s
         else if update_type = Some (JStr ''positions'') then update_positions data s
         else if update_type = Some (JStr ''predictions'') then update_predictions data s
         else if update_type = Some (JStr ''trade_execution'') then record_trade t_rec data s
         else if update_type = Some (JStr ''strategy_log'') then add_strategy_log t_rec data s
         else if update_type = Some (JStr ''performance'') then update_performance data s
         else if update_type = Some (JStr ''risk_metrics'') then update_risk_metrics data s
         else (None, s))"

text \<open>\<^verbatim>\<open>self.system_status["last_update"] = now\<close>: item assignment with a string key
  raises \<^verbatim>\<open>TypeError\<close> on anything but a dict.\<close>

definition stamp_last_update :: "string \<Rightarrow> store \<Rightarrow> outcome" where
  "stamp_last_update now s =
     (case system_status s of
        JObj d \<Rightarrow> (None, s\<lparr>system_status := JObj (dict_set ''last_update'' (JStr now) d)\<rparr>)
      | _ \<Rightarrow> (Some TypeError, s))"

text \<open>
  \<^verbatim>\<open>update_state\<close>: everything, the push included, is inside \<^verbatim>\<open>with self.lock\<close>.
  An exception leaves the block at once (the lock is released, nothing is stamped or
  pushed). \<^verbatim>\<open>_push_to_webui\<close> catches the request's failures and only logs, so it
  changes neither the store nor the outcome. \<open>t_stamp\<close> is the second reading of the
  clock, for \<^verbatim>\<open>last_update\<close>.
\<close>

definition update_state :: "string \<Rightarrow> string \<Rightarrow> event \<Rightarrow> store \<Rightarrow> result" where
  "update_state t_rec t_stamp e s =
     (case dispatch t_rec e s of
        (Some err, s1) \<Rightarrow> \<lparr> raised = Some err, after = s1, effects = [Acquire, Release] \<rparr>
      | (None, s1) \<Rightarrow>
          (case stamp_last_update t_stamp s1 of
             (Some err, s2) \<Rightarrow> \<lparr> raised = Some err, after = s2, effects = [Acquire, Release] \<rparr>
           | (None, s2) \<Rightarrow>
               \<lparr> raised = None, after = s2, effects = [Acquire, Post e, Release] \<rparr>))"

text \<open>A sequence of calls, each with its two clock readings. The caller may catch an
  exception and go on (the strategy loop does), so the store is threaded through
  whether or not a call raised.\<close>

type_synonym call = "string \<times> string \<times> event"

definition step :: "call \<Rightarrow> store \<Rightarrow> store" where
  "step c s = (case c of (t_rec, t_stamp, e) \<Rightarrow> after (update_state t_rec t_stamp e s))"

definition run :: "call list \<Rightarrow> store \<Rightarrow> store" where
  "run cs s = fold step cs s"

definition trade_event :: "dict \<Rightarrow> event" where
  "trade_event d = \<lparr> ev_type = Some (JStr ''trade_execution''), ev_data = Some d \<rparr>"

definition positions_event :: "dict \<Rightarrow> event" where
  "positions_event d = \<lparr> ev_type = Some (JStr ''positions''), ev_data = Some d \<rparr>"

subsection \<open>Readers\<close>

definition get_system_status :: "store \<Rightarrow> error + json" where
  "get_system_status s = py_copy (system_status s)"

definition get_positions :: "store \<Rightarrow> error + json" where
  "get_positions s = py_copy (positions s)"

definition get_predictions :: "store \<Rightarrow> error + json" where
  "get_predictions s = py_copy (predictions s)"

definition get_performance_stats :: "store \<Rightarrow> error + json" where
  "get_performance_stats s = py_copy (performance_stats s)"

definition get_risk_metrics :: "store \<Rightarrow> error + json" where
  "get_risk_metrics s = py_copy (risk_metrics s)"

text \<open>The slice \<^verbatim>\<open>xs[-limit:]\<close>: for a positive \<^verbatim>\<open>limit\<close> it starts
  \<^verbatim>\<open>limit\<close> places from the end (at the front when the list is shorter); for a
  negative one it starts at index \<^verbatim>\<open>-limit\<close>.\<close>

definition tail_slice :: "int \<Rightarrow> 'a list \<Rightarrow> 'a list" where
  "tail_slice limit xs =
     (if limit > 0 then drop (length xs - nat limit) xs else drop (nat (- limit)) xs)"

text \<open>\<^verbatim>\<open>get_trading_history(limit=50)\<close> and \<^verbatim>\<open>get_strategy_logs(limit=100)\<close>;
  \<open>None\<close> is a call that leaves the parameter out.\<close>

definition get_trading_history :: "int option \<Rightarrow> store \<Rightarrow> json list" where
  "get_trading_history limit_arg s =
     (let limit = (case limit_arg of None \<Rightarrow> 50 | Some l \<Rightarrow> l);
          history = trading_history s
      in if limit \<noteq> 0 then tail_slice limit history else history)"

definition get_strategy_logs :: "int option \<Rightarrow> store \<Rightarrow> json list" where
  "get_strategy_logs limit_arg s =
     (let limit = (case limit_arg of None \<Rightarrow> 100 | Some l \<Rightarrow> l);
          logs = strategy_logs s
      in if limit \<noteq> 0 then tail_slice limit logs else logs)"

subsection \<open>Persisting and restoring\<close>

text \<open>
  What \<^verbatim>\<open>load_state\<close> finds at \<^verbatim>\<open>file_path\<close>: no file, a file that
  \<^verbatim>\<open>json.load\<close> cannot parse, or a file holding a JSON value. \<^verbatim>\<open>save_state\<close>
  writes the document below with \<^verbatim>\<open>json.dump\<close>; reading that file back gives the
  same value (the values of type \<open>json\<close> are the ones JSON encodes). Failures of the
  file system are not modelled.
\<close>

datatype state_file = Missing | Unparseable | Parsed json

definition save_state :: "string \<Rightarrow> store \<Rightarrow> state_file" where
  "save_state now s =
     Parsed (JObj
       [(''system_status'', system_status s),
        (''positions'', positions s),
        (''predictions'', predictions s),
        (''trading_history'', JArr (trading_history s)),
        (''strategy_logs'', JArr (strategy_logs s)),
        (''performance_stats'', performance_stats s),
        (''risk_metrics'', risk_metrics s),
        (''saved_at'', JStr now)])"

text \<open>\<^verbatim>\<open>load_state\<close>. The five plain fields are assigned first, in the code's order,
  then each log is rebuilt by \<^verbatim>\<open>deque(..., maxlen=self.max_history)\<close>, which raises
  \<^verbatim>\<open>TypeError\<close> on a value that is not iterable. \<^verbatim>\<open>state_data.get\<close> raises
  \<^verbatim>\<open>AttributeError\<close> when the document is not an object.\<close>

definition load_state :: "state_file \<Rightarrow> store \<Rightarrow> outcome" where
  "load_state f s =
     (case f of
        Missing \<Rightarrow> (None, s)
      | Unparseable \<Rightarrow> (Some JSONDecodeError, s)
      | Parsed doc \<Rightarrow>
          (case doc of
             JObj state_data \<Rightarrow>
               (let s1 = s\<lparr>system_status := dict_get state_data ''system_status'' (system_status s)\<rparr>;
                    s2 = s1\<lparr>positions := dict_get state_data ''positions'' (JObj [])\<rparr>;
                    s3 = s2\<lparr>predictions := dict_get state_data ''predictions'' (JObj [])\<rparr>;
                    s4 = s3\<lparr>performance_stats :=
                              dict_get state_data ''performance_stats'' (performance_stats s3)\<rparr>;
                    s5 = s4\<lparr>risk_metrics := dict_get state_data ''risk_metrics'' (risk_metrics s4)\<rparr>
                in case py_iter (dict_get state_data ''trading_history'' (JArr [])) of
                     Inl e \<Rightarrow> (Some e, s5)
                   | Inr th \<Rightarrow>
                       (let s6 = s5\<lparr>trading_history := deque_of (max_history s5) th\<rparr> in
                        case py_iter (dict_get state_data ''strategy_logs'' (JArr [])) of
                          Inl e \<Rightarrow> (Some e, s6)
                        | Inr sl \<Rightarrow> (None, s6\<lparr>strategy_logs := deque_of (max_history s6) sl\<rparr>)))
           | _ \<Rightarrow> (Some AttributeError, s)))"

section \<open>Order sizing (\<^verbatim>\<open>_execute_trading_decisions\<close>)\<close>

text \<open>
  From \<^verbatim>\<open>trader/main_strategy.py\<close>. An advisory action has the keys the loop reads;
  \<^verbatim>\<open>reason\<close> is optional (\<^verbatim>\<open>action.get('reason', ...)\<close>). The two limits are
  attributes of the strategy object. What the loop emits is the sequence of its calls of
  \<^verbatim>\<open>_execute_buy_order\<close> and \<^verbatim>\<open>_execute_sell_order\<close> with their arguments.
\<close>

record action =
  symbol :: string
  action_type :: string
  quantity_usdt :: rat
  confidence :: rat
  reason :: "string option"

record strategy =
  min_trade_amount :: rat
  max_single_trade :: rat

definition kronos_strategy :: strategy where
  "kronos_strategy = \<lparr> min_trade_amount = 50, max_single_trade = 500 \<rparr>"

datatype order_call =
    ExecuteBuy string rat rat string
  | ExecuteSell string rat rat string

text \<open>The default of \<^verbatim>\<open>action.get('reason', ...)\<close>: five CJK characters, here as
  their UTF-8 bytes.\<close>

definition default_reason :: string where
  "default_reason = map char_of
     [0xE6, 0x97, 0xA0, 0xE5, 0x85, 0xB7, 0xE4, 0xBD, 0x93, 0xE5, 0x8E, 0x9F, 0xE5, 0x9B, 0xA0 :: nat]"

definition total_buy_amount :: "action list \<Rightarrow> rat" where
  "total_buy_amount actions =
     sum_list (map quantity_usdt
       (filter (\<lambda>a. action_type a = ''BUY'' \<and> quantity_usdt a > 0) actions))"

text \<open>\<^verbatim>\<open>usdt_balance / total_buy_amount * 0.95\<close>; the division raises when the
  total is zero (only with a negative balance).\<close>

definition scale_factor :: "rat \<Rightarrow> rat \<Rightarrow> error + rat" where
  "scale_factor usdt_balance buy_total =
     (if buy_total > usdt_balance then
        (if buy_total = 0 then Inl ZeroDivisionError
         else Inr (usdt_balance / buy_total * (95 / 100)))
      else Inr 1)"

text \<open>One pass of the loop body: the calls it makes (none or one).\<close>

definition process_action :: "strategy \<Rightarrow> rat \<Rightarrow> action \<Rightarrow> order_call list" where
  "process_action st scale a =
     (let r = (case reason a of None \<Rightarrow> default_reason | Some x \<Rightarrow> x) in
      if action_type a = ''HOLD'' \<or> quantity_usdt a = 0 then []
      else if quantity_usdt a < min_trade_amount st then []
      else
        (let q1 = (if action_type a = ''BUY'' then quantity_usdt a * scale else quantity_usdt a);
             q2 = (if q1 > max_single_trade st then max_single_trade st else q1)
         in if action_type a = ''BUY'' then [ExecuteBuy (symbol a) q2 (confidence a) r]
            else if action_type a = ''SELL'' then [ExecuteSell (symbol a) q2 (confidence a) r]
            else []))"

text \<open>\<^verbatim>\<open>_execute_trading_decisions\<close>: \<open>advice\<close> is
  \<^verbatim>\<open>trading_advice.get('trading_actions')\<close> and \<open>usdt_balance\<close> what
  \<^verbatim>\<open>get_balance('USDT')\<close> returned.\<close>

definition execute_trading_decisions ::
  "strategy \<Rightarrow> rat \<Rightarrow> action list option \<Rightarrow> error + order_call list" where
  "execute_trading_decisions st usdt_balance advice =
     (case advice of
        None \<Rightarrow> Inr []
      | Some actions \<Rightarrow>
          (if actions = [] then Inr []
           else
             (case scale_factor usdt_balance (total_buy_amount actions) of
                Inl e \<Rightarrow> Inl e
              | Inr scale \<Rightarrow> Inr (concat (map (process_action st scale) actions)))))"

section \<open>Notions used to state the properties\<close>

text \<open>The seven kinds the \<^verbatim>\<open>if\<close>/\<^verbatim>\<open>elif\<close> chain of \<^verbatim>\<open>update_state\<close> compares
  \<^verbatim>\<open>state_data.get("type")\<close> with.\<close>

definition recognized_kinds :: "string list" where
  "recognized_kinds =
     [''system_status'', ''positions'', ''predictions'', ''trade_execution'',
      ''strategy_log'', ''performance'', ''risk_metrics'']"

definition recognized :: "json option \<Rightarrow> bool" where
  "recognized t = (t \<in> set (map (\<lambda>k. Some (JStr k)) recognized_kinds))"

definition bogus_event :: event where
  "bogus_event = \<lparr> ev_type = Some (JStr ''bogus''), ev_data = Some [] \<rparr>"

text \<open>For each POST of a trace, how many times the (re-entrant) lock is held when the
  POST is made, starting from \<open>d\<close> holds.\<close>

fun held_at_posts :: "nat \<Rightarrow> effect list \<Rightarrow> nat list" where
  "held_at_posts d [] = []"
| "held_at_posts d (Acquire # es) = held_at_posts (Suc d) es"
| "held_at_posts d (Release # es) = held_at_posts (d - 1) es"
| "held_at_posts d (Post e # es) = d # held_at_posts d es"

definition posts_outside_lock :: "effect list \<Rightarrow> bool" where
  "posts_outside_lock tr = list_all (\<lambda>d. d = 0) (held_at_posts 0 tr)"

definition posts_inside_lock :: "effect list \<Rightarrow> bool" where
  "posts_inside_lock tr = list_all (\<lambda>d. d > 0) (held_at_posts 0 tr)"

text \<open>The newest \<open>n\<close> entries of a log, in insertion order (all of them when the log
  is shorter).\<close>

definition newest :: "nat \<Rightarrow> 'a list \<Rightarrow> 'a list" where
  "newest n xs = drop (length xs - n) xs"

text \<open>A log of \<open>n\<close> distinguishable trade records.\<close>

definition numbered :: "nat \<Rightarrow> json list" where
  "numbered n =
     map (\<lambda>i. JObj [(''timestamp'', JStr ''t''), (''order_id'', JNum (of_nat i))]) [0..<n]"

definition reason_of :: "action \<Rightarrow> string" where
  "reason_of a = (case reason a of None \<Rightarrow> default_reason | Some x \<Rightarrow> x)"

definition buy :: "string \<Rightarrow> rat \<Rightarrow> action" where
  "buy s q = \<lparr> symbol = s, action_type = ''BUY'', quantity_usdt = q,
               confidence = 8 / 10, reason = Some ''signal'' \<rparr>"

definition not_an_object :: "json \<Rightarrow> bool" where
  "not_an_object v = (case v of JObj d \<Rightarrow> False | _ \<Rightarrow> True)"

text \<open>A persisted document whose \<^verbatim>\<open>trading_history\<close> is a number.\<close>

definition half_document :: json where
  "half_document = JObj
     [(''positions'', JObj [(''BTC'', JObj [(''usd_value'', JNum 700)])]),
      (''trading_history'', JNum 5)]"

text \<open>Events and calls used below: a strategy-log event, a call that records a trade,
  the record such a call appends, and the payload \<^verbatim>\<open>state_data.get("data", {})\<close>.\<close>

definition log_event :: "dict \<Rightarrow> event" where
  "log_event d = \<lparr> ev_type = Some (JStr ''strategy_log''), ev_data = Some d \<rparr>"

definition trade_call :: "string \<times> string \<times> dict \<Rightarrow> call" where
  "trade_call c = (case c of (t_rec, t_stamp, d) \<Rightarrow> (t_rec, t_stamp, trade_event d))"

definition trade_record :: "string \<times> string \<times> dict \<Rightarrow> json" where
  "trade_record c = (case c of (t_rec, t_stamp, d) \<Rightarrow> stamped t_rec d)"

definition data_of :: "event \<Rightarrow> dict" where
  "data_of e = (case ev_data e of None \<Rightarrow> [] | Some d \<Rightarrow> d)"

text \<open>Both logs hold at most \<^verbatim>\<open>max_history\<close> entries.\<close>

definition logs_bounded :: "store \<Rightarrow> bool" where
  "logs_bounded s =
     (length (trading_history s) \<le> max_history s \<and> length (strategy_logs s) \<le> max_history s)"

text \<open>The number under key \<open>k\<close> of a stored dict, and the counters of
  \<^verbatim>\<open>get_performance_stats()\<close>.\<close>

definition num_field :: "json \<Rightarrow> string \<Rightarrow> rat option" where
  "num_field obj k =
     (case obj of
        JObj d \<Rightarrow> (case map_of d k of None \<Rightarrow> None | Some v \<Rightarrow> num_of v)
      | _ \<Rightarrow> None)"

definition perf_counter :: "string \<Rightarrow> store \<Rightarrow> rat option" where
  "perf_counter k s =
     (case get_performance_stats s of Inl e \<Rightarrow> None | Inr v \<Rightarrow> num_field v k)"

definition is_success :: "dict \<Rightarrow> bool" where
  "is_success d = (map_of d ''status'' = Some (JStr ''success''))"

text \<open>The stores a process can be in: built by \<^verbatim>\<open>StateManager(max_history=n)\<close>, then
  changed by calls of \<^verbatim>\<open>update_state\<close> and \<^verbatim>\<open>load_state\<close>.\<close>

inductive reachable :: "nat \<Rightarrow> store \<Rightarrow> bool" where
  fresh: "reachable n (init_store n)"
| updated: "reachable n s \<Longrightarrow> reachable n (after (update_state t_rec t_stamp e s))"
| loaded: "reachable n s \<Longrightarrow> reachable n (snd (load_state f s))"

text \<open>The numeric \<^verbatim>\<open>usd_value\<close> of one entry of the position map, as
  \<^verbatim>\<open>info.get("usd_value", 0.0)\<close> reads it.\<close>

definition usd_of :: "json \<Rightarrow> rat" where
  "usd_of info =
     (case info of
        JObj i \<Rightarrow> (case num_of (dict_get i ''usd_value'' (JNum 0)) of None \<Rightarrow> 0 | Some x \<Rightarrow> x)
      | _ \<Rightarrow> 0)"

text \<open>Position maps the loop of \<^verbatim>\<open>_calculate_risk_metrics\<close> runs through without
  raising: every entry is a dict whose \<^verbatim>\<open>usd_value\<close>, when present, is a number.\<close>

definition priced :: "dict \<Rightarrow> bool" where
  "priced p =
     list_all (\<lambda>(asset, info).
        case info of
          JObj i \<Rightarrow> num_of (dict_get i ''usd_value'' (JNum 0)) \<noteq> None
        | _ \<Rightarrow> False) p"

text \<open>The entries of the non-reserve assets (every asset but \<^verbatim>\<open>USDT\<close>).\<close>

definition non_reserve :: "dict \<Rightarrow> dict" where
  "non_reserve p = filter (\<lambda>(asset, info). asset \<noteq> ''USDT'') p"

text \<open>The recomputation as the specification words it (section 4.2): the sum of
  \<^verbatim>\<open>usd_value\<close> over all assets; the \<^verbatim>\<open>usd_value\<close> of the reserve asset, 0 if absent;
  (total - reserve) / total if the total is positive, else 0; the maximum
  \<^verbatim>\<open>usd_value\<close> over the non-reserve assets, 0 if there is none; the number of
  non-reserve assets with a positive \<^verbatim>\<open>usd_value\<close>.\<close>

definition spec_total_value :: "dict \<Rightarrow> rat" where
  "spec_total_value p = sum_list (map (\<lambda>(asset, info). usd_of info) p)"

definition spec_reserve :: "dict \<Rightarrow> rat" where
  "spec_reserve p = (case map_of p ''USDT'' of None \<Rightarrow> 0 | Some info \<Rightarrow> usd_of info)"

definition spec_exposure :: "dict \<Rightarrow> rat" where
  "spec_exposure p =
     (if spec_total_value p > 0
      then (spec_total_value p - spec_reserve p) / spec_total_value p else 0)"

definition spec_max_single_position :: "dict \<Rightarrow> rat" where
  "spec_max_single_position p =
     (if non_reserve p = [] then 0
      else Max (set (map (\<lambda>(asset, info). usd_of info) (non_reserve p))))"

definition spec_position_count :: "dict \<Rightarrow> nat" where
  "spec_position_count p = length (filter (\<lambda>(asset, info). usd_of info > 0) (non_reserve p))"

text \<open>What the loop computes for \<^verbatim>\<open>max_single_position\<close>: it starts from 0.0, so the
  result is the largest of 0 and the non-reserve values.\<close>

definition code_max_single_position :: "dict \<Rightarrow> rat" where
  "code_max_single_position p =
     Max (insert 0 (set (map (\<lambda>(asset, info). usd_of info) (non_reserve p))))"

text \<open>The number under key \<open>k\<close> of what \<^verbatim>\<open>get_risk_metrics()\<close> returns.\<close>

definition risk_value :: "string \<Rightarrow> store \<Rightarrow> rat option" where
  "risk_value k s = (case get_risk_metrics s of Inl e \<Rightarrow> None | Inr v \<Rightarrow> num_field v k)"

text \<open>Sample position maps: a holding worth \<open>v\<close>, the scenario of a BTC holding worth
  700 beside a reserve of 300, and a single holding worth nothing.\<close>

definition holding :: "rat \<Rightarrow> json" where
  "holding v = JObj [(''amount'', JNum 1), (''usd_value'', JNum v)]"

definition btc_usdt :: dict where
  "btc_usdt = [(''BTC'', holding 700), (''USDT'', holding 300)]"

definition dust :: dict where
  "dust = [(''BTC'', holding 0)]"

text \<open>A single holding with a negative value.\<close>

definition short :: dict where
  "short = [(''BTC'', holding (- 5))]"

text \<open>A performance event, and the fresh store after a performance event that stores the
  string \<^verbatim>\<open>"x"\<close> under \<^verbatim>\<open>failed_trades\<close>.\<close>

definition performance_event :: "dict \<Rightarrow> event" where
  "performance_event d = \<lparr> ev_type = Some (JStr ''performance''), ev_data = Some d \<rparr>"

definition spoiled :: store where
  "spoiled = after (update_state ''t0'' ''u0''
                (performance_event [(''failed_trades'', JStr ''x'')]) (init_store 1000))"

section \<open>Properties\<close>

subsection \<open>Unknown event kinds\<close>

lemma dispatch_unrecognized:
  "\<not> recognized (ev_type e) \<Longrightarrow> dispatch t e s = (None, s)"
  by (simp add: dispatch_def recognized_def recognized_kinds_def Let_def)

text \<open>
  C2. The claim: a call of \<^verbatim>\<open>update_state\<close> whose kind is none of the seven is
  rejected with an invalid-event error, changes nothing (not even \<^verbatim>\<open>last_update\<close>)
  and forwards nothing. The code has no \<^verbatim>\<open>else\<close> branch: such a call falls through
  the chain, raises nothing, stamps \<^verbatim>\<open>last_update\<close> and pushes the event. On a
  fresh store an event of kind \<^verbatim>\<open>bogus\<close> is accepted, changes the store and is
  posted.
\<close>

theorem C2_unknown_kind_counterexample:
  "\<not> recognized (ev_type bogus_event) \<and>
   raised (update_state ''t1'' ''t2'' bogus_event (init_store 1000)) = None \<and>
   after (update_state ''t1'' ''t2'' bogus_event (init_store 1000)) \<noteq> init_store 1000 \<and>
   dict_get
     (case system_status (after (update_state ''t1'' ''t2'' bogus_event (init_store 1000))) of
        JObj d \<Rightarrow> d | _ \<Rightarrow> [])
     ''last_update'' JNull = JStr ''t2'' \<and>
   effects (update_state ''t1'' ''t2'' bogus_event (init_store 1000))
     = [Acquire, Post bogus_event, Release]"
  by (simp add: update_state_def dispatch_def bogus_event_def recognized_def recognized_kinds_def
      stamp_last_update_def init_store_def dict_set_def dict_get_def Let_def)

text \<open>
  C2, as the code has it: for a kind that is none of the seven, on a store whose
  \<^verbatim>\<open>system_status\<close> is a dict, \<^verbatim>\<open>update_state\<close> raises nothing, leaves every
  field but \<^verbatim>\<open>system_status\<close> as it was, sets \<^verbatim>\<open>last_update\<close> to the current
  time and posts the event.
\<close>

theorem C2_unknown_kind_amended:
  assumes "\<not> recognized (ev_type e)" and "system_status s = JObj d"
  shows "update_state t_rec t_stamp e s =
           \<lparr> raised = None,
             after = s\<lparr>system_status := JObj (dict_set ''last_update'' (JStr t_stamp) d)\<rparr>,
             effects = [Acquire, Post e, Release] \<rparr>"
  using assms by (simp add: update_state_def dispatch_unrecognized stamp_last_update_def)

theorem C2_unknown_kind_witness:
  "\<not> recognized (ev_type bogus_event) \<and>
   update_state ''t1'' ''t2'' bogus_event (init_store 1000) =
     \<lparr> raised = None,
       after = (init_store 1000)\<lparr>system_status := JObj
         [(''is_running'', JBool False),
          (''last_update'', JStr ''t2''),
          (''last_strategy_run'', JNull),
          (''next_strategy_run'', JNull),
          (''simulation_mode'', JBool True),
          (''error_count'', JNum 0),
          (''total_runs'', JNum 0)]\<rparr>,
       effects = [Acquire, Post bogus_event, Release] \<rparr>"
proof -
  have k: "\<not> recognized (ev_type bogus_event)"
    by (simp add: recognized_def recognized_kinds_def bogus_event_def)
  have d: "system_status (init_store 1000) = JObj
         [(''is_running'', JBool False),
          (''last_update'', JNull),
          (''last_strategy_run'', JNull),
          (''next_strategy_run'', JNull),
          (''simulation_mode'', JBool True),
          (''error_count'', JNum 0),
          (''total_runs'', JNum 0)]"
    by (simp add: init_store_def)
  show ?thesis
    using k C2_unknown_kind_amended [OF k d, of "''t1''" "''t2''"]
    by (simp add: dict_set_def)
qed

subsection \<open>The push and the lock\<close>

text \<open>
  C3. The claim: the POST to the subscriber is attempted only after the store's lock has
  been released. In the code \<^verbatim>\<open>self._push_to_webui(state_data)\<close> is the last
  statement inside \<^verbatim>\<open>with self.lock\<close>: in the trace of a call the POST stands between
  taking and releasing the lock, so it is made with the lock held once.
\<close>

theorem C3_push_counterexample:
  "effects (update_state ''t1'' ''t2'' bogus_event (init_store 1000))
     = [Acquire, Post bogus_event, Release] \<and>
   held_at_posts 0 (effects (update_state ''t1'' ''t2'' bogus_event (init_store 1000))) = [1] \<and>
   \<not> posts_outside_lock (effects (update_state ''t1'' ''t2'' bogus_event (init_store 1000)))"
  by (simp add: update_state_def dispatch_def bogus_event_def posts_outside_lock_def
      stamp_last_update_def init_store_def Let_def)

text \<open>
  C3, as the code has it: a call that raises nothing takes the lock, posts the event and
  then releases the lock; a call that raises takes and releases the lock and posts
  nothing. Every POST is made while the lock is held.
\<close>

theorem C3_push_inside_lock:
  "effects (update_state t_rec t_stamp e s) =
     (if raised (update_state t_rec t_stamp e s) = None
      then [Acquire, Post e, Release] else [Acquire, Release]) \<and>
   posts_inside_lock (effects (update_state t_rec t_stamp e s))"
  by (auto simp: update_state_def posts_inside_lock_def split: prod.splits option.splits)

theorem C3_push_witness:
  "effects (update_state ''t1'' ''t2'' bogus_event (init_store 1000)) =
     [Acquire, Post bogus_event, Release] \<and>
   posts_inside_lock (effects (update_state ''t1'' ''t2'' bogus_event (init_store 1000)))"
proof -
  have "raised (update_state ''t1'' ''t2'' bogus_event (init_store 1000)) = None"
    by (simp add: update_state_def dispatch_def bogus_event_def
      stamp_last_update_def init_store_def Let_def)
  then show ?thesis
    using C3_push_inside_lock [of "''t1''" "''t2''" bogus_event "init_store 1000"]
    by (simp add: posts_inside_lock_def)
qed

subsection \<open>Order sizing: the order of the checks\<close>

text \<open>
  C4. The claim: a BUY amount is scaled first, the scaled amount is compared with
  \<^verbatim>\<open>min_trade_amount\<close>, and only then clamped; so a BUY whose requested amount is at
  least the minimum and whose scaled amount is below it is dropped. The loop compares the
  requested amount with the minimum before it scales: with a balance of 100, a BUY of 60
  next to a BUY of 1000 is scaled by 19/212 to 285/53 (about 5.38), below the minimum of
  50, and is still emitted.
\<close>

theorem C4_scaling_counterexample:
  "min_trade_amount kronos_strategy \<le> quantity_usdt (buy ''BTCUSDT'' 60) \<and>
   scale_factor 100 (total_buy_amount [buy ''BTCUSDT'' 60, buy ''ETHUSDT'' 1000])
     = Inr (19 / 212) \<and>
   quantity_usdt (buy ''BTCUSDT'' 60) * (19 / 212) < min_trade_amount kronos_strategy \<and>
   execute_trading_decisions kronos_strategy 100
       (Some [buy ''BTCUSDT'' 60, buy ''ETHUSDT'' 1000])
     = Inr [ExecuteBuy ''BTCUSDT'' (285 / 53) (8 / 10) ''signal'',
            ExecuteBuy ''ETHUSDT'' (4750 / 53) (8 / 10) ''signal'']"
  by (simp add: execute_trading_decisions_def scale_factor_def total_buy_amount_def
      process_action_def kronos_strategy_def buy_def Let_def)

text \<open>
  C4, as the code has it: for a BUY action the loop body drops the action exactly when
  the requested amount is zero or below \<^verbatim>\<open>min_trade_amount\<close>; otherwise it emits one
  buy order whose amount is the requested amount times the scale factor, clamped to at
  most \<^verbatim>\<open>max_single_trade\<close>.
\<close>

theorem C4_min_check_before_scaling:
  assumes "action_type a = ''BUY''"
  shows "process_action st scale a =
           (if quantity_usdt a = 0 \<or> quantity_usdt a < min_trade_amount st then []
            else [ExecuteBuy (symbol a)
                    (min (quantity_usdt a * scale) (max_single_trade st))
                    (confidence a) (reason_of a)])"
  using assms by (auto simp: process_action_def reason_of_def Let_def min_def)

theorem C4_min_check_witness:
  "action_type (buy ''BTCUSDT'' 60) = ''BUY'' \<and>
   process_action kronos_strategy (19 / 212) (buy ''BTCUSDT'' 60)
     = [ExecuteBuy ''BTCUSDT'' (285 / 53) (8 / 10) ''signal''] \<and>
   process_action kronos_strategy 1 (buy ''BTCUSDT'' 700)
     = [ExecuteBuy ''BTCUSDT'' 500 (8 / 10) ''signal''] \<and>
   process_action kronos_strategy 1 (buy ''BTCUSDT'' 40) = []"
proof -
  have b: "\<And>q. action_type (buy ''BTCUSDT'' q) = ''BUY''" by (simp add: buy_def)
  show ?thesis
    using C4_min_check_before_scaling [OF b, of kronos_strategy "19 / 212" 60]
      C4_min_check_before_scaling [OF b, of kronos_strategy 1 700]
      C4_min_check_before_scaling [OF b, of kronos_strategy 1 40]
    by (simp add: buy_def kronos_strategy_def reason_of_def)
qed

subsection \<open>Order sizing: a balance that is not positive\<close>

text \<open>
  C5. The claim: with a balance of zero or less and a positive total of BUY amounts the
  scale factor is clamped to a floor and every BUY is dropped, so that no BUY order with
  a zero or negative amount is emitted. The code applies no floor and checks the minimum
  before scaling: with a balance of 0 (what \<^verbatim>\<open>get_balance\<close> also returns on a
  failure) a BUY of 100 is emitted with amount 0, and with a balance of -10 with
  amount -19/2.
\<close>

theorem C5_floor_counterexample:
  "total_buy_amount [buy ''BTCUSDT'' 100] = 100 \<and>
   execute_trading_decisions kronos_strategy 0 (Some [buy ''BTCUSDT'' 100])
     = Inr [ExecuteBuy ''BTCUSDT'' 0 (8 / 10) ''signal''] \<and>
   execute_trading_decisions kronos_strategy (- 10) (Some [buy ''BTCUSDT'' 100])
     = Inr [ExecuteBuy ''BTCUSDT'' (- 19 / 2) (8 / 10) ''signal'']"
  by (simp add: execute_trading_decisions_def scale_factor_def total_buy_amount_def
      process_action_def kronos_strategy_def buy_def Let_def)

text \<open>
  C5, as the code has it: with a balance of zero or less and a positive total of BUY
  amounts, the scale factor is balance / total * 0.95, which is zero or negative, and
  every action goes through the loop body with that factor. With a non-negative
  \<^verbatim>\<open>max_single_trade\<close>, a BUY with a positive requested amount is dropped when that
  amount is below \<^verbatim>\<open>min_trade_amount\<close> and otherwise emitted with the amount
  requested * scale, which is zero or negative.
\<close>

theorem C5_unclamped_scale:
  assumes "usdt_balance \<le> 0" and "0 < total_buy_amount actions"
  shows "scale_factor usdt_balance (total_buy_amount actions)
           = Inr (usdt_balance / total_buy_amount actions * (95 / 100)) \<and>
         usdt_balance / total_buy_amount actions * (95 / 100) \<le> 0 \<and>
         execute_trading_decisions st usdt_balance (Some actions)
           = Inr (concat (map (process_action st
                    (usdt_balance / total_buy_amount actions * (95 / 100))) actions)) \<and>
         (\<forall>a \<in> set actions.
            action_type a = ''BUY'' \<and> 0 < quantity_usdt a \<and> 0 \<le> max_single_trade st \<longrightarrow>
              process_action st (usdt_balance / total_buy_amount actions * (95 / 100)) a
                = (if quantity_usdt a < min_trade_amount st then []
                   else [ExecuteBuy (symbol a)
                           (quantity_usdt a *
                              (usdt_balance / total_buy_amount actions * (95 / 100)))
                           (confidence a) (reason_of a)]) \<and>
              quantity_usdt a * (usdt_balance / total_buy_amount actions * (95 / 100)) \<le> 0)"
proof -
  let ?sc = "usdt_balance / total_buy_amount actions * (95 / 100)"
  have sc: "scale_factor usdt_balance (total_buy_amount actions) = Inr ?sc"
    using assms by (simp add: scale_factor_def)
  have neg: "?sc \<le> 0"
    using assms by (simp add: divide_nonpos_pos mult_nonpos_nonneg)
  have ne: "actions \<noteq> []"
    using assms(2) by (auto simp: total_buy_amount_def)
  have ex: "execute_trading_decisions st usdt_balance (Some actions)
           = Inr (concat (map (process_action st ?sc) actions))"
    using sc ne by (simp add: execute_trading_decisions_def)
  have each: "process_action st ?sc a
                = (if quantity_usdt a < min_trade_amount st then []
                   else [ExecuteBuy (symbol a) (quantity_usdt a * ?sc)
                           (confidence a) (reason_of a)]) \<and>
              quantity_usdt a * ?sc \<le> 0"
    if "action_type a = ''BUY''" "0 < quantity_usdt a" "0 \<le> max_single_trade st" for a
  proof -
    have le: "quantity_usdt a * ?sc \<le> 0"
    proof (rule mult_nonneg_nonpos)
      show "0 \<le> quantity_usdt a" using that(2) by simp
      show "?sc \<le> 0" by (rule neg)
    qed
    then have "\<not> quantity_usdt a * ?sc > max_single_trade st"
      using that(3) by linarith
    then show ?thesis
      using that le by (simp add: process_action_def reason_of_def Let_def)
  qed
  show ?thesis using sc neg ex each by blast
qed

theorem C5_unclamped_witness:
  "(0::rat) \<le> 0 \<and> 0 < total_buy_amount [buy ''BTCUSDT'' 100] \<and>
   scale_factor 0 (total_buy_amount [buy ''BTCUSDT'' 100]) = Inr 0 \<and>
   execute_trading_decisions kronos_strategy 0 (Some [buy ''BTCUSDT'' 100])
     = Inr (concat (map (process_action kronos_strategy 0) [buy ''BTCUSDT'' 100])) \<and>
   process_action kronos_strategy 0 (buy ''BTCUSDT'' 100)
     = [ExecuteBuy ''BTCUSDT'' 0 (8 / 10) ''signal'']"
proof -
  have t: "total_buy_amount [buy ''BTCUSDT'' 100] = 100"
    by (simp add: total_buy_amount_def buy_def)
  have h1: "(0::rat) \<le> 0" by simp
  have h2: "0 < total_buy_amount [buy ''BTCUSDT'' 100]" by (simp add: t)
  show ?thesis
    using C5_unclamped_scale [OF h1 h2, of kronos_strategy] t
    by (simp add: buy_def kronos_strategy_def reason_of_def)
qed

subsection \<open>Restoring a malformed document\<close>

text \<open>
  C6. The claim: a persisted document that \<^verbatim>\<open>load_state\<close> cannot fully apply is
  rejected with an error and no key of it is applied. \<^verbatim>\<open>load_state\<close> assigns the
  fields one after the other and validates nothing: in a document whose
  \<^verbatim>\<open>trading_history\<close> is the number 5, \<^verbatim>\<open>positions\<close> is already stored when
  \<^verbatim>\<open>deque(5, ...)\<close> raises \<^verbatim>\<open>TypeError\<close>.
\<close>

theorem C6_restore_counterexample:
  "load_state (Parsed half_document) (init_store 1000)
     = (Some TypeError,
        (init_store 1000)\<lparr>positions := JObj [(''BTC'', JObj [(''usd_value'', JNum 700)])]\<rparr>) \<and>
   snd (load_state (Parsed half_document) (init_store 1000)) \<noteq> init_store 1000"
  by (simp add: load_state_def half_document_def dict_get_def init_store_def Let_def)

text \<open>
  C6, as the code has it: a file that is not JSON, or whose top-level value is not an
  object, makes \<^verbatim>\<open>load_state\<close> raise and leaves every field of the store as it was.
\<close>

theorem C6_rejected_whole:
  assumes "f = Unparseable \<or> (\<exists>v. f = Parsed v \<and> not_an_object v)"
  shows "fst (load_state f s) \<noteq> None \<and> snd (load_state f s) = s"
proof -
  from assms consider "f = Unparseable" | v where "f = Parsed v" "not_an_object v" by blast
  then show ?thesis
  proof cases
    case 1
    then show ?thesis by (simp add: load_state_def)
  next
    case 2
    then show ?thesis by (cases v) (simp_all add: load_state_def not_an_object_def)
  qed
qed

theorem C6_rejected_witness:
  "fst (load_state Unparseable (init_store 1000)) = Some JSONDecodeError \<and>
   snd (load_state Unparseable (init_store 1000)) = init_store 1000 \<and>
   not_an_object (JArr []) \<and>
   fst (load_state (Parsed (JArr [])) (init_store 1000)) = Some AttributeError \<and>
   snd (load_state (Parsed (JArr [])) (init_store 1000)) = init_store 1000"
proof -
  have a: "Unparseable = Unparseable \<or> (\<exists>v. Unparseable = Parsed v \<and> not_an_object v)"
    by simp
  have n: "not_an_object (JArr [])" by (simp add: not_an_object_def)
  then have b: "Parsed (JArr []) = Unparseable \<or>
                (\<exists>v. Parsed (JArr []) = Parsed v \<and> not_an_object v)"
    by simp
  show ?thesis
    using C6_rejected_whole [OF a, of "init_store 1000"]
      C6_rejected_whole [OF b, of "init_store 1000"] n
    by (simp add: load_state_def)
qed

subsection \<open>Reading the logs\<close>

text \<open>
  C7. The claim: both log readers return the full log for a limit of 0 and for a limit
  left out, and the newest \<^verbatim>\<open>limit\<close> entries for a positive limit. The parameter has
  a default (50 for the trade history, 100 for the strategy log), so a call that leaves
  it out returns the newest 50 (or 100) entries: of a log of 51 trade records it returns
  50.
\<close>

theorem C7_default_counterexample:
  "length (get_trading_history None ((init_store 1000)\<lparr>trading_history := numbered 51\<rparr>)) = 50 \<and>
   length (trading_history ((init_store 1000)\<lparr>trading_history := numbered 51\<rparr>)) = 51 \<and>
   get_trading_history None ((init_store 1000)\<lparr>trading_history := numbered 51\<rparr>)
     \<noteq> trading_history ((init_store 1000)\<lparr>trading_history := numbered 51\<rparr>)"
proof -
  let ?s = "(init_store 1000)\<lparr>trading_history := numbered 51\<rparr>"
  have a: "length (trading_history ?s) = 51" by (simp add: numbered_def)
  have b: "length (get_trading_history None ?s) = 50"
    by (simp add: get_trading_history_def tail_slice_def numbered_def Let_def)
  from a b have "get_trading_history None ?s \<noteq> trading_history ?s" by auto
  with a b show ?thesis by blast
qed

text \<open>
  C7, as the code has it: for both readers a limit of 0 returns the full log; a positive
  limit returns the newest \<^verbatim>\<open>limit\<close> entries in insertion order (the whole log when
  it has fewer); a call that leaves the limit out returns the newest 50 trade records,
  or the newest 100 log entries.
\<close>

theorem C7_limits:
  "get_trading_history (Some 0) s = trading_history s \<and>
   get_strategy_logs (Some 0) s = strategy_logs s \<and>
   (0 < l \<longrightarrow>
      get_trading_history (Some l) s = newest (nat l) (trading_history s) \<and>
      get_strategy_logs (Some l) s = newest (nat l) (strategy_logs s) \<and>
      length (get_trading_history (Some l) s) = min (nat l) (length (trading_history s)) \<and>
      length (get_strategy_logs (Some l) s) = min (nat l) (length (strategy_logs s))) \<and>
   get_trading_history None s = newest 50 (trading_history s) \<and>
   get_strategy_logs None s = newest 100 (strategy_logs s)"
  by (auto simp: get_trading_history_def get_strategy_logs_def tail_slice_def newest_def Let_def)

theorem C7_limits_witness:
  "(0::int) < 2 \<and>
   get_trading_history (Some 2) ((init_store 1000)\<lparr>trading_history := numbered 3\<rparr>)
     = [JObj [(''timestamp'', JStr ''t''), (''order_id'', JNum 1)],
        JObj [(''timestamp'', JStr ''t''), (''order_id'', JNum 2)]] \<and>
   get_trading_history (Some 0) ((init_store 1000)\<lparr>trading_history := numbered 3\<rparr>)
     = numbered 3"
proof -
  have n3: "numbered 3 = [JObj [(''timestamp'', JStr ''t''), (''order_id'', JNum 0)],
        JObj [(''timestamp'', JStr ''t''), (''order_id'', JNum 1)],
        JObj [(''timestamp'', JStr ''t''), (''order_id'', JNum 2)]]"
    by (simp add: numbered_def upt_rec numeral_3_eq_3)
  show ?thesis
    using C7_limits [of "(init_store 1000)\<lparr>trading_history := numbered 3\<rparr>" 2]
    by (simp add: newest_def n3)
qed

subsection \<open>The bounded logs\<close>

lemma deque_append_drop:
  "length xs \<le> n \<Longrightarrow> deque_append n x xs = drop (Suc (length xs) - n) (xs @ [x])"
  by (cases "length xs = n") (auto simp: deque_append_def Let_def drop_Suc tl_append split: list.splits)

lemma length_deque_append:
  "length xs \<le> n \<Longrightarrow> length (deque_append n x xs) \<le> n"
  by (auto simp: deque_append_def Let_def)

lemma fold_deque_append:
  "length acc \<le> n \<Longrightarrow>
   fold (deque_append n) xs acc = drop (length acc + length xs - n) (acc @ xs)"
proof (induction xs arbitrary: acc)
  case Nil
  then show ?case by simp
next
  case (Cons x xs)
  let ?acc' = "deque_append n x acc"
  have len: "length ?acc' \<le> n" using Cons.prems by (rule length_deque_append)
  have "fold (deque_append n) (x # xs) acc = fold (deque_append n) xs ?acc'" by simp
  also have "\<dots> = drop (length ?acc' + length xs - n) (?acc' @ xs)"
    using len by (rule Cons.IH)
  also have "\<dots> = drop (length acc + length (x # xs) - n) (acc @ x # xs)"
  proof (cases "length acc = n")
    case True
    then have a: "?acc' = tl (acc @ [x])" by (simp add: deque_append_def Let_def)
    have l: "length ?acc' = n" using True a by simp
    have "drop (length ?acc' + length xs - n) (?acc' @ xs) = drop (length xs) (tl (acc @ [x]) @ xs)"
      using l a by simp
    also have "tl (acc @ [x]) @ xs = tl (acc @ x # xs)"
      by (cases acc) simp_all
    also have "drop (length xs) (tl (acc @ x # xs)) = drop (Suc (length xs)) (acc @ x # xs)"
      by (simp only: drop_Suc)
    finally show ?thesis using True by simp
  next
    case False
    then have lt: "length acc < n" using Cons.prems by simp
    then have a: "?acc' = acc @ [x]" by (simp add: deque_append_def Let_def)
    show ?thesis by (simp add: a)
  qed
  finally show ?case .
qed

lemma deque_of_drop: "deque_of n xs = drop (length xs - n) xs"
  by (simp add: deque_of_def fold_deque_append)

lemma deque_of_id: "length xs \<le> n \<Longrightarrow> deque_of n xs = xs"
  by (simp add: deque_of_drop)

lemma length_deque_of: "length (deque_of n xs) \<le> n"
  by (simp add: deque_of_drop)

lemma calculate_risk_metrics_frame:
  "max_history (snd (calculate_risk_metrics s)) = max_history s"
  "trading_history (snd (calculate_risk_metrics s)) = trading_history s"
  "strategy_logs (snd (calculate_risk_metrics s)) = strategy_logs s"
  "performance_stats (snd (calculate_risk_metrics s)) = performance_stats s"
  "system_status (snd (calculate_risk_metrics s)) = system_status s"
  "positions (snd (calculate_risk_metrics s)) = positions s"
  "predictions (snd (calculate_risk_metrics s)) = predictions s"
  by (simp_all add: calculate_risk_metrics_def Let_def
      split: json.splits sum.splits option.splits)

lemma stamp_last_update_frame:
  "max_history (snd (stamp_last_update t s)) = max_history s"
  "trading_history (snd (stamp_last_update t s)) = trading_history s"
  "strategy_logs (snd (stamp_last_update t s)) = strategy_logs s"
  "performance_stats (snd (stamp_last_update t s)) = performance_stats s"
  "risk_metrics (snd (stamp_last_update t s)) = risk_metrics s"
  "positions (snd (stamp_last_update t s)) = positions s"
  "predictions (snd (stamp_last_update t s)) = predictions s"
  by (simp_all add: stamp_last_update_def split: json.splits)

lemma after_update_state:
  "after (update_state t_rec t_stamp e s) =
     (case fst (dispatch t_rec e s) of
        Some err \<Rightarrow> snd (dispatch t_rec e s)
      | None \<Rightarrow> snd (stamp_last_update t_stamp (snd (dispatch t_rec e s))))"
  by (simp add: update_state_def split: prod.splits option.splits)

lemma record_trade_frame:
  "max_history (snd (record_trade t d s)) = max_history s"
  "trading_history (snd (record_trade t d s))
     = deque_append (max_history s) (stamped t d) (trading_history s)"
  "strategy_logs (snd (record_trade t d s)) = strategy_logs s"
  by (simp_all add: record_trade_def Let_def split: sum.splits option.splits)

lemma dispatch_max_history:
  "max_history (snd (dispatch t e s)) = max_history s"
  by (simp add: dispatch_def Let_def update_system_status_def update_positions_def
      update_predictions_def record_trade_frame add_strategy_log_def update_performance_def
      update_risk_metrics_def calculate_risk_metrics_frame split: sum.splits)

lemma dispatch_trading_history:
  "trading_history (snd (dispatch t e s)) =
     (if ev_type e = Some (JStr ''trade_execution'')
      then deque_append (max_history s) (stamped t (data_of e)) (trading_history s)
      else trading_history s)"
  by (simp add: dispatch_def Let_def update_system_status_def update_positions_def data_of_def
      update_predictions_def record_trade_frame add_strategy_log_def update_performance_def
      update_risk_metrics_def calculate_risk_metrics_frame split: sum.splits)

lemma dispatch_strategy_logs:
  "strategy_logs (snd (dispatch t e s)) =
     (if ev_type e = Some (JStr ''strategy_log'')
      then deque_append (max_history s) (stamped t (data_of e)) (strategy_logs s)
      else strategy_logs s)"
  by (simp add: dispatch_def Let_def update_system_status_def update_positions_def data_of_def
      update_predictions_def record_trade_frame add_strategy_log_def update_performance_def
      update_risk_metrics_def calculate_risk_metrics_frame split: sum.splits)

lemma update_state_max_history:
  "max_history (after (update_state t_rec t_stamp e s)) = max_history s"
  by (simp add: after_update_state dispatch_max_history stamp_last_update_frame
      split: option.splits)

lemma update_state_trading_history:
  "trading_history (after (update_state t_rec t_stamp e s)) =
     (if ev_type e = Some (JStr ''trade_execution'')
      then deque_append (max_history s) (stamped t_rec (data_of e)) (trading_history s)
      else trading_history s)"
  by (simp add: after_update_state dispatch_trading_history stamp_last_update_frame
      split: option.splits)

lemma update_state_strategy_logs:
  "strategy_logs (after (update_state t_rec t_stamp e s)) =
     (if ev_type e = Some (JStr ''strategy_log'')
      then deque_append (max_history s) (stamped t_rec (data_of e)) (strategy_logs s)
      else strategy_logs s)"
  by (simp add: after_update_state dispatch_strategy_logs stamp_last_update_frame
      split: option.splits)

lemma update_state_logs_bounded:
  "logs_bounded s \<Longrightarrow> logs_bounded (after (update_state t_rec t_stamp e s))"
  by (simp add: logs_bounded_def update_state_max_history update_state_trading_history
      update_state_strategy_logs length_deque_append)

lemma run_max_history: "max_history (run cs s) = max_history s"
  unfolding run_def
  by (induction cs arbitrary: s) (simp_all add: step_def update_state_max_history split: prod.splits)

lemma run_logs_bounded: "logs_bounded s \<Longrightarrow> logs_bounded (run cs s)"
  unfolding run_def
  by (induction cs arbitrary: s) (simp_all add: step_def update_state_logs_bounded split: prod.splits)

lemma init_logs_bounded: "logs_bounded (init_store n)"
  by (simp add: logs_bounded_def init_store_def)

lemma run_trades_history:
  "trading_history (run (map trade_call ts) s)
     = fold (deque_append (max_history s)) (map trade_record ts) (trading_history s)"
  unfolding run_def
proof (induction ts arbitrary: s)
  case Nil
  then show ?case by simp
next
  case (Cons c ts)
  obtain t1 t2 d where c: "c = (t1, t2, d)" by (cases c) auto
  have st: "step (trade_call c) s = after (update_state t1 t2 (trade_event d) s)"
    by (simp add: c trade_call_def step_def)
  have r: "trade_record c = stamped t1 d"
    by (simp add: c trade_record_def)
  have h: "trading_history (step (trade_call c) s)
             = deque_append (max_history s) (stamped t1 d) (trading_history s)"
    by (simp add: st update_state_trading_history trade_event_def data_of_def)
  have m: "max_history (step (trade_call c) s) = max_history s"
    by (simp add: st update_state_max_history)
  show ?case
    by (simp add: Cons.IH h m r)
qed

text \<open>
  C8. After any sequence of \<^verbatim>\<open>update_state\<close> calls on a fresh store of capacity
  \<open>n\<close>, the trade log and the strategy log each hold at most \<open>n\<close> entries. An append
  to a full log drops exactly the oldest entry: the new log is the old one with the new
  record at the end and without its first entry. After \<open>n + k\<close> trade records into a
  fresh store, \<^verbatim>\<open>get_trading_history(0)\<close> has length \<open>n\<close> and holds the records
  \<open>k + 1\<close> to \<open>n + k\<close> in insertion order.
\<close>

theorem C8_bounded_logs:
  "length (trading_history (run cs (init_store n))) \<le> n \<and>
   length (strategy_logs (run cs (init_store n))) \<le> n \<and>
   (length (trading_history s) = max_history s \<longrightarrow>
      trading_history (after (update_state t_rec t_stamp (trade_event d) s))
        = tl (trading_history s @ [stamped t_rec d])) \<and>
   (length (strategy_logs s) = max_history s \<longrightarrow>
      strategy_logs (after (update_state t_rec t_stamp (log_event d) s))
        = tl (strategy_logs s @ [stamped t_rec d])) \<and>
   (length ts = n + k \<longrightarrow>
      get_trading_history (Some 0) (run (map trade_call ts) (init_store n))
        = drop k (map trade_record ts) \<and>
      length (get_trading_history (Some 0) (run (map trade_call ts) (init_store n))) = n)"
proof -
  have b: "logs_bounded (run cs (init_store n))"
    by (rule run_logs_bounded) (rule init_logs_bounded)
  have m: "max_history (run cs (init_store n)) = n"
    by (simp add: run_max_history init_store_def)
  have p1: "length (trading_history (run cs (init_store n))) \<le> n"
    and p2: "length (strategy_logs (run cs (init_store n))) \<le> n"
    using b m by (simp_all add: logs_bounded_def)
  have p3: "trading_history (after (update_state t_rec t_stamp (trade_event d) s))
        = tl (trading_history s @ [stamped t_rec d])"
    if "length (trading_history s) = max_history s"
    using that
    by (simp add: update_state_trading_history trade_event_def data_of_def deque_append_def Let_def)
  have p4: "strategy_logs (after (update_state t_rec t_stamp (log_event d) s))
        = tl (strategy_logs s @ [stamped t_rec d])"
    if "length (strategy_logs s) = max_history s"
    using that
    by (simp add: update_state_strategy_logs log_event_def data_of_def deque_append_def Let_def)
  have h: "trading_history (run (map trade_call ts) (init_store n))
             = drop (length ts - n) (map trade_record ts)"
    by (simp add: run_trades_history fold_deque_append init_store_def)
  have p5: "get_trading_history (Some 0) (run (map trade_call ts) (init_store n))
        = drop k (map trade_record ts) \<and>
      length (get_trading_history (Some 0) (run (map trade_call ts) (init_store n))) = n"
    if "length ts = n + k"
    using that by (simp add: get_trading_history_def h)
  show ?thesis using p1 p2 p3 p4 p5 by blast
qed

theorem C8_bounded_witness:
  "length (strategy_logs (run [] (init_store 2))) \<le> 2 \<and>
   length (trading_history ((init_store 2)\<lparr>trading_history := numbered 2\<rparr>))
     = max_history ((init_store 2)\<lparr>trading_history := numbered 2\<rparr>) \<and>
   trading_history (after (update_state ''t'' ''u'' (trade_event [(''order_id'', JNum 2)])
       ((init_store 2)\<lparr>trading_history := numbered 2\<rparr>)))
     = [JObj [(''timestamp'', JStr ''t''), (''order_id'', JNum 1)],
        JObj [(''timestamp'', JStr ''t''), (''order_id'', JNum 2)]] \<and>
   get_trading_history (Some 0)
       (run (map trade_call
              [(''t1'', ''u1'', [(''order_id'', JNum 1)]),
               (''t2'', ''u2'', [(''order_id'', JNum 2)]),
               (''t3'', ''u3'', [(''order_id'', JNum 3)])])
            (init_store 2))
     = [JObj [(''timestamp'', JStr ''t2''), (''order_id'', JNum 2)],
        JObj [(''timestamp'', JStr ''t3''), (''order_id'', JNum 3)]]"
proof -
  have n2: "numbered 2 = [JObj [(''timestamp'', JStr ''t''), (''order_id'', JNum 0)],
        JObj [(''timestamp'', JStr ''t''), (''order_id'', JNum 1)]]"
    by (simp add: numbered_def upt_rec numeral_2_eq_2)
  have st: "\<And>t v. stamped t [(''order_id'', v)] = JObj [(''timestamp'', JStr t), (''order_id'', v)]"
    by (simp add: stamped_def dict_update_def dict_set_def)
  show ?thesis
    using C8_bounded_logs [where cs = "[]" and n = 2 and k = 1
        and s = "(init_store 2)\<lparr>trading_history := numbered 2\<rparr>"
        and t_rec = "''t''" and t_stamp = "''u''" and d = "[(''order_id'', JNum 2)]"
        and ts = "[(''t1'', ''u1'', [(''order_id'', JNum 1)]),
               (''t2'', ''u2'', [(''order_id'', JNum 2)]),
               (''t3'', ''u3'', [(''order_id'', JNum 3)])]"]
    by (simp add: n2 st init_store_def trade_record_def)
qed

subsection \<open>The trade counters\<close>

lemma perf_counter_num_field [simp]:
  "perf_counter k s = num_field (performance_stats s) k"
  by (cases "performance_stats s") (simp_all add: perf_counter_def get_performance_stats_def num_field_def)

lemma py_iadd_one: "num_of v = Some n \<Longrightarrow> py_iadd v (JNum 1) = Inr (JNum (n + 1))"
  by (cases v) auto

lemma map_of_dict_set: "map_of (dict_set k v d) = (map_of d)(k \<mapsto> v)"
  by (simp add: dict_set_def update_conv')

lemma num_field_dict_set:
  "num_field (JObj (dict_set k v d)) k' = (if k' = k then num_of v else num_field (JObj d) k')"
  by (simp add: num_field_def map_of_dict_set)

lemma item_iadd_one:
  assumes "num_field obj k = Some n"
  shows "\<exists>d. obj = JObj d \<and> item_iadd obj k (JNum 1) = Inr (JObj (dict_set k (JNum (n + 1)) d))"
proof (cases obj)
  case (JObj d)
  with assms obtain v where v: "map_of d k = Some v" "num_of v = Some n"
    by (cases "map_of d k") (simp_all add: num_field_def)
  then show ?thesis by (simp add: JObj item_iadd_def py_iadd_one)
qed (use assms in \<open>simp_all add: num_field_def\<close>)

lemma item_iadd_other:
  assumes "item_iadd obj k y = Inr obj'" and "k' \<noteq> k"
  shows "num_field obj' k' = num_field obj k'"
proof (cases obj)
  case (JObj d)
  show ?thesis
  proof (cases "map_of d k")
    case None
    with assms JObj show ?thesis by (simp add: item_iadd_def)
  next
    case (Some x)
    show ?thesis
    proof (cases "py_iadd x y")
      case (Inl e)
      with assms JObj Some show ?thesis by (simp add: item_iadd_def)
    next
      case (Inr z)
      with assms JObj Some have "obj' = JObj (dict_set k z d)" by (simp add: item_iadd_def)
      then show ?thesis using assms(2) by (simp add: JObj num_field_dict_set)
    qed
  qed
qed (use assms in \<open>simp_all add: item_iadd_def\<close>)

lemma record_trade_perf:
  assumes "item_iadd (performance_stats s) ''total_trades'' (JNum 1) = Inr q2"
    and "item_iadd q2 (if is_success d then ''successful_trades'' else ''failed_trades'') (JNum 1)
           = Inr q3"
  shows "performance_stats (snd (record_trade t d s)) = q3 \<or>
         (\<exists>v q4. item_iadd q3 ''total_volume'' v = Inr q4 \<and>
                  performance_stats (snd (record_trade t d s)) = q4)"
proof (cases "map_of d ''volume_usdt''")
  case None
  with assms show ?thesis by (simp add: record_trade_def Let_def is_success_def)
next
  case (Some v)
  show ?thesis
  proof (cases "item_iadd q3 ''total_volume'' v")
    case (Inl e)
    with assms Some show ?thesis by (simp add: record_trade_def Let_def is_success_def)
  next
    case (Inr q4)
    with assms Some have "performance_stats (snd (record_trade t d s)) = q4"
      by (simp add: record_trade_def Let_def is_success_def)
    with Inr show ?thesis by blast
  qed
qed

lemma record_trade_counters:
  assumes t: "num_field (performance_stats s) ''total_trades'' = Some nt"
    and su: "num_field (performance_stats s) ''successful_trades'' = Some ns"
    and fa: "num_field (performance_stats s) ''failed_trades'' = Some nf"
  shows "num_field (performance_stats (snd (record_trade t_rec d s))) ''total_trades''
           = Some (nt + 1) \<and>
         num_field (performance_stats (snd (record_trade t_rec d s))) ''successful_trades''
           = Some (if is_success d then ns + 1 else ns) \<and>
         num_field (performance_stats (snd (record_trade t_rec d s))) ''failed_trades''
           = Some (if is_success d then nf else nf + 1)"
proof -
  let ?c = "if is_success d then ''successful_trades'' else ''failed_trades''"
  let ?n = "if is_success d then ns else nf"
  from item_iadd_one [OF t] obtain p where
    p: "performance_stats s = JObj p"
    and i1: "item_iadd (performance_stats s) ''total_trades'' (JNum 1)
               = Inr (JObj (dict_set ''total_trades'' (JNum (nt + 1)) p))"
    by auto
  let ?q2 = "JObj (dict_set ''total_trades'' (JNum (nt + 1)) p)"
  have q2t: "num_field ?q2 ''total_trades'' = Some (nt + 1)"
    and q2s: "num_field ?q2 ''successful_trades'' = Some ns"
    and q2f: "num_field ?q2 ''failed_trades'' = Some nf"
    using su fa by (simp_all add: num_field_dict_set p)
  have "num_field ?q2 ?c = Some ?n" using q2s q2f by simp
  from item_iadd_one [OF this] have
    i2: "item_iadd ?q2 ?c (JNum 1)
           = Inr (JObj (dict_set ?c (JNum (?n + 1)) (dict_set ''total_trades'' (JNum (nt + 1)) p)))"
    by auto
  let ?q3 = "JObj (dict_set ?c (JNum (?n + 1)) (dict_set ''total_trades'' (JNum (nt + 1)) p))"
  have q3t: "num_field ?q3 ''total_trades'' = Some (nt + 1)"
    and q3s: "num_field ?q3 ''successful_trades'' = Some (if is_success d then ns + 1 else ns)"
    and q3f: "num_field ?q3 ''failed_trades'' = Some (if is_success d then nf else nf + 1)"
    using q2t q2s q2f by (simp_all add: num_field_dict_set)
  from record_trade_perf [OF i1 i2, of t_rec] consider
    "performance_stats (snd (record_trade t_rec d s)) = ?q3"
    | v q4 where "item_iadd ?q3 ''total_volume'' v = Inr q4"
        "performance_stats (snd (record_trade t_rec d s)) = q4"
    by blast
  then show ?thesis
  proof cases
    case 1
    then show ?thesis using q3t q3s q3f by simp
  next
    case 2
    have "num_field q4 ''total_trades'' = num_field ?q3 ''total_trades''"
      "num_field q4 ''successful_trades'' = num_field ?q3 ''successful_trades''"
      "num_field q4 ''failed_trades'' = num_field ?q3 ''failed_trades''"
      using item_iadd_other [OF 2(1)] by simp_all
    then show ?thesis using 2(2) q3t q3s q3f by simp
  qed
qed

lemma update_state_trade_perf:
  "performance_stats (after (update_state t_rec t_stamp (trade_event d) s))
     = performance_stats (snd (record_trade t_rec d s))"
  by (simp add: after_update_state dispatch_def trade_event_def Let_def stamp_last_update_frame
      split: option.splits)

lemma run_trades_counters:
  assumes "perf_counter ''total_trades'' s = Some nt"
    and "perf_counter ''successful_trades'' s = Some ns"
    and "perf_counter ''failed_trades'' s = Some nf"
  shows "perf_counter ''total_trades'' (run (map trade_call ts) s)
           = Some (nt + of_nat (length ts)) \<and>
         perf_counter ''successful_trades'' (run (map trade_call ts) s)
           = Some (ns + of_nat (length (filter (\<lambda>c. is_success (snd (snd c))) ts))) \<and>
         perf_counter ''failed_trades'' (run (map trade_call ts) s)
           = Some (nf + of_nat (length (filter (\<lambda>c. \<not> is_success (snd (snd c))) ts)))"
  using assms
proof (induction ts arbitrary: s nt ns nf)
  case Nil
  then show ?case by (simp add: run_def)
next
  case (Cons c ts)
  obtain t1 t2 d where c: "c = (t1, t2, d)" by (cases c) auto
  let ?s1 = "step (trade_call c) s"
  have st: "performance_stats ?s1 = performance_stats (snd (record_trade t1 d s))"
    by (simp add: c trade_call_def step_def update_state_trade_perf)
  have k: "perf_counter ''total_trades'' ?s1 = Some (nt + 1)"
    "perf_counter ''successful_trades'' ?s1 = Some (if is_success d then ns + 1 else ns)"
    "perf_counter ''failed_trades'' ?s1 = Some (if is_success d then nf else nf + 1)"
    using record_trade_counters [of s nt ns nf t1 d] Cons.prems by (simp_all add: st)
  have r: "run (map trade_call (c # ts)) s = run (map trade_call ts) ?s1"
    by (simp add: run_def)
  note ih = Cons.IH [OF k]
  show ?case
  proof (cases "is_success d")
    case True
    then show ?thesis unfolding r using ih by (simp add: c)
  next
    case False
    then show ?thesis unfolding r using ih by (simp add: c)
  qed
qed

lemma spoiled_store:
  "raised (update_state ''t0'' ''u0''
      (performance_event [(''failed_trades'', JStr ''x'')]) (init_store 1000)) = None"
  "performance_stats spoiled = JObj
         [(''total_trades'', JNum 0),
          (''successful_trades'', JNum 0),
          (''failed_trades'', JStr ''x''),
          (''total_profit_loss'', JNum 0),
          (''total_volume'', JNum 0),
          (''start_balance'', JNum 0),
          (''current_balance'', JNum 0)]"
  "trading_history spoiled = []"
  "max_history spoiled = 1000"
  by (simp_all add: spoiled_def update_state_def dispatch_def performance_event_def
      update_performance_def obj_update_def dict_update_def dict_set_def
      stamp_last_update_def init_store_def Let_def)

text \<open>
  C10. The claim: every \<^verbatim>\<open>trade_execution\<close> event adds one to \<^verbatim>\<open>total_trades\<close> and
  one to exactly one of \<^verbatim>\<open>successful_trades\<close> and \<^verbatim>\<open>failed_trades\<close>. The counters
  live in a dict that a \<^verbatim>\<open>performance\<close> event overwrites with whatever it carries:
  after such an event has stored the string \<^verbatim>\<open>"x"\<close> under \<^verbatim>\<open>failed_trades\<close>, a
  failed trade is appended to the log and counted in \<^verbatim>\<open>total_trades\<close>, and then
  \<^verbatim>\<open>failed_trades += 1\<close> raises \<^verbatim>\<open>TypeError\<close>: the totals read 1, 0 and no number.
\<close>

theorem C10_counters_counterexample:
  "raised (update_state ''t0'' ''u0''
      (performance_event [(''failed_trades'', JStr ''x'')]) (init_store 1000)) = None \<and>
   raised (update_state ''t1'' ''u1'' (trade_event [(''status'', JStr ''failed'')]) spoiled)
     = Some TypeError \<and>
   length (trading_history
     (after (update_state ''t1'' ''u1'' (trade_event [(''status'', JStr ''failed'')]) spoiled)))
     = 1 \<and>
   perf_counter ''total_trades''
     (after (update_state ''t1'' ''u1'' (trade_event [(''status'', JStr ''failed'')]) spoiled))
     = Some 1 \<and>
   perf_counter ''successful_trades''
     (after (update_state ''t1'' ''u1'' (trade_event [(''status'', JStr ''failed'')]) spoiled))
     = Some 0 \<and>
   perf_counter ''failed_trades''
     (after (update_state ''t1'' ''u1'' (trade_event [(''status'', JStr ''failed'')]) spoiled))
     = None"
proof -
  let ?d = "[(''status'', JStr ''failed'')]"
  let ?p1 = "JObj
         [(''total_trades'', JNum 1),
          (''successful_trades'', JNum 0),
          (''failed_trades'', JStr ''x''),
          (''total_profit_loss'', JNum 0),
          (''total_volume'', JNum 0),
          (''start_balance'', JNum 0),
          (''current_balance'', JNum 0)]"
  let ?p0 = "JObj
         [(''total_trades'', JNum 0),
          (''successful_trades'', JNum 0),
          (''failed_trades'', JStr ''x''),
          (''total_profit_loss'', JNum 0),
          (''total_volume'', JNum 0),
          (''start_balance'', JNum 0),
          (''current_balance'', JNum 0)]"
  have i1: "item_iadd ?p0 ''total_trades'' (JNum 1) = Inr ?p1"
    by (simp add: item_iadd_def dict_set_def)
  have i2: "item_iadd ?p1 ''failed_trades'' (JNum 1) = Inl TypeError"
    by (simp add: item_iadd_def)
  have rt: "record_trade ''t1'' ?d spoiled =
      (Some TypeError,
       spoiled\<lparr>trading_history := [stamped ''t1'' ?d], performance_stats := ?p1\<rparr>)"
    by (simp add: record_trade_def Let_def i1 i2 spoiled_store deque_append_def)
  have us: "update_state ''t1'' ''u1'' (trade_event ?d) spoiled =
      \<lparr> raised = Some TypeError,
        after = spoiled\<lparr>trading_history := [stamped ''t1'' ?d], performance_stats := ?p1\<rparr>,
        effects = [Acquire, Release] \<rparr>"
    by (simp add: update_state_def dispatch_def trade_event_def Let_def rt)
  show ?thesis
    by (simp add: us spoiled_store num_field_def)
qed

text \<open>
  C10, as the code has it: on a store whose three trade counters are numbers, a
  \<^verbatim>\<open>trade_execution\<close> event adds one to \<^verbatim>\<open>total_trades\<close> and one to exactly one of
  \<^verbatim>\<open>successful_trades\<close> (when the record's \<^verbatim>\<open>status\<close> is \<^verbatim>\<open>"success"\<close>) and
  \<^verbatim>\<open>failed_trades\<close> (any other or no status), also when the later update of
  \<^verbatim>\<open>total_volume\<close> raises. After any sequence of such events on a fresh store,
  \<^verbatim>\<open>total_trades\<close> is the sum of the other two counters and the number of events.
\<close>


theorem C10_trade_counters:
  "(perf_counter ''total_trades'' s = Some nt \<and>
    perf_counter ''successful_trades'' s = Some ns \<and>
    perf_counter ''failed_trades'' s = Some nf \<longrightarrow>
      perf_counter ''total_trades'' (after (update_state t_rec t_stamp (trade_event d) s))
        = Some (nt + 1) \<and>
      perf_counter ''successful_trades'' (after (update_state t_rec t_stamp (trade_event d) s))
        = Some (if map_of d ''status'' = Some (JStr ''success'') then ns + 1 else ns) \<and>
      perf_counter ''failed_trades'' (after (update_state t_rec t_stamp (trade_event d) s))
        = Some (if map_of d ''status'' = Some (JStr ''success'') then nf else nf + 1)) \<and>
   (\<exists>a b. perf_counter ''successful_trades'' (run (map trade_call ts) (init_store n)) = Some a \<and>
          perf_counter ''failed_trades'' (run (map trade_call ts) (init_store n)) = Some b \<and>
          perf_counter ''total_trades'' (run (map trade_call ts) (init_store n)) = Some (a + b) \<and>
          a + b = of_nat (length ts))"
proof -
  have one: "perf_counter ''total_trades'' (after (update_state t_rec t_stamp (trade_event d) s))
        = Some (nt + 1) \<and>
      perf_counter ''successful_trades'' (after (update_state t_rec t_stamp (trade_event d) s))
        = Some (if map_of d ''status'' = Some (JStr ''success'') then ns + 1 else ns) \<and>
      perf_counter ''failed_trades'' (after (update_state t_rec t_stamp (trade_event d) s))
        = Some (if map_of d ''status'' = Some (JStr ''success'') then nf else nf + 1)"
    if "perf_counter ''total_trades'' s = Some nt"
      "perf_counter ''successful_trades'' s = Some ns"
      "perf_counter ''failed_trades'' s = Some nf"
    using record_trade_counters [of s nt ns nf t_rec d] that
    by (simp add: update_state_trade_perf is_success_def)
  have i: "perf_counter ''total_trades'' (init_store n) = Some 0"
    "perf_counter ''successful_trades'' (init_store n) = Some 0"
    "perf_counter ''failed_trades'' (init_store n) = Some 0"
    by (simp_all add: init_store_def num_field_def)
  let ?a = "of_nat (length (filter (\<lambda>c. is_success (snd (snd c))) ts)) :: rat"
  let ?b = "of_nat (length (filter (\<lambda>c. \<not> is_success (snd (snd c))) ts)) :: rat"
  have "length (filter (\<lambda>c. is_success (snd (snd c))) ts)
          + length (filter (\<lambda>c. \<not> is_success (snd (snd c))) ts) = length ts"
    by (rule sum_length_filter_compl)
  then have "(of_nat (length (filter (\<lambda>c. is_success (snd (snd c))) ts)
          + length (filter (\<lambda>c. \<not> is_success (snd (snd c))) ts)) :: rat) = of_nat (length ts)"
    by (rule arg_cong)
  then have ab: "?a + ?b = of_nat (length ts)"
    by (simp only: of_nat_add)
  have "perf_counter ''successful_trades'' (run (map trade_call ts) (init_store n)) = Some ?a \<and>
        perf_counter ''failed_trades'' (run (map trade_call ts) (init_store n)) = Some ?b \<and>
        perf_counter ''total_trades'' (run (map trade_call ts) (init_store n)) = Some (?a + ?b) \<and>
        ?a + ?b = of_nat (length ts)"
    using run_trades_counters [OF i, of ts] ab by simp
  then have seq: "\<exists>a b. perf_counter ''successful_trades'' (run (map trade_call ts) (init_store n)) = Some a \<and>
          perf_counter ''failed_trades'' (run (map trade_call ts) (init_store n)) = Some b \<and>
          perf_counter ''total_trades'' (run (map trade_call ts) (init_store n)) = Some (a + b) \<and>
          a + b = of_nat (length ts)"
    by blast
  show ?thesis
  proof (intro conjI impI)
    assume h: "perf_counter ''total_trades'' s = Some nt \<and>
      perf_counter ''successful_trades'' s = Some ns \<and>
      perf_counter ''failed_trades'' s = Some nf"
    note o = one [OF h [THEN conjunct1] h [THEN conjunct2, THEN conjunct1]
        h [THEN conjunct2, THEN conjunct2]]
    show "perf_counter ''total_trades'' (after (update_state t_rec t_stamp (trade_event d) s))
        = Some (nt + 1)"
      using o by (rule conjunct1)
    show "perf_counter ''successful_trades'' (after (update_state t_rec t_stamp (trade_event d) s))
        = Some (if map_of d ''status'' = Some (JStr ''success'') then ns + 1 else ns)"
      using o by (elim conjE)
    show "perf_counter ''failed_trades'' (after (update_state t_rec t_stamp (trade_event d) s))
        = Some (if map_of d ''status'' = Some (JStr ''success'') then nf else nf + 1)"
      using o by (elim conjE)
  next
    show "\<exists>a b. perf_counter ''successful_trades'' (run (map trade_call ts) (init_store n)) = Some a \<and>
          perf_counter ''failed_trades'' (run (map trade_call ts) (init_store n)) = Some b \<and>
          perf_counter ''total_trades'' (run (map trade_call ts) (init_store n)) = Some (a + b) \<and>
          a + b = of_nat (length ts)"
      by (rule seq)
  qed
qed

theorem C10_trade_witness:
  "perf_counter ''total_trades'' (init_store 1000) = Some 0 \<and>
   perf_counter ''successful_trades'' (init_store 1000) = Some 0 \<and>
   perf_counter ''failed_trades'' (init_store 1000) = Some 0 \<and>
   perf_counter ''total_trades''
     (after (update_state ''t'' ''u'' (trade_event [(''symbol'', JStr ''BTCUSDT'')])
        (init_store 1000))) = Some 1 \<and>
   perf_counter ''successful_trades''
     (after (update_state ''t'' ''u'' (trade_event [(''symbol'', JStr ''BTCUSDT'')])
        (init_store 1000))) = Some 0 \<and>
   perf_counter ''failed_trades''
     (after (update_state ''t'' ''u'' (trade_event [(''symbol'', JStr ''BTCUSDT'')])
        (init_store 1000))) = Some 1"
proof -
  have i: "perf_counter ''total_trades'' (init_store 1000) = Some 0 \<and>
    perf_counter ''successful_trades'' (init_store 1000) = Some 0 \<and>
    perf_counter ''failed_trades'' (init_store 1000) = Some 0"
    by (simp add: init_store_def num_field_def)
  show ?thesis
    using i C10_trade_counters [where s = "init_store 1000" and nt = 0 and ns = 0 and nf = 0
        and t_rec = "''t''" and t_stamp = "''u''" and d = "[(''symbol'', JStr ''BTCUSDT'')]"
        and ts = "[]" and n = 1000]
    by simp
qed

subsection \<open>Persisting and restoring\<close>

lemma load_state_max_history: "max_history (snd (load_state f s)) = max_history s"
proof (cases f)
  case (Parsed doc)
  show ?thesis
  proof (cases doc)
    case (JObj d)
    show ?thesis
      by (simp add: Parsed JObj load_state_def Let_def split: sum.splits)
  qed (simp_all add: Parsed load_state_def)
qed (simp_all add: load_state_def)

lemma load_state_logs_bounded:
  assumes "logs_bounded s"
  shows "logs_bounded (snd (load_state f s))"
proof (cases f)
  case (Parsed doc)
  show ?thesis
  proof (cases doc)
    case (JObj d)
    show ?thesis
      using assms
      by (simp add: Parsed JObj load_state_def Let_def logs_bounded_def length_deque_of
          split: sum.splits)
  qed (use assms in \<open>simp_all add: Parsed load_state_def\<close>)
qed (use assms in \<open>simp_all add: load_state_def\<close>)

lemma reachable_invariant:
  "reachable n s \<Longrightarrow> max_history s = n \<and> logs_bounded s"
proof (induction rule: reachable.induct)
  case (fresh n)
  then show ?case by (simp add: init_logs_bounded) (simp add: init_store_def)
next
  case (updated n s t_rec t_stamp e)
  then show ?case by (simp add: update_state_max_history update_state_logs_bounded)
next
  case (loaded n s f)
  then show ?case by (simp add: load_state_max_history load_state_logs_bounded)
qed

lemma save_load_roundtrip:
  assumes "max_history s = n" and "logs_bounded s"
  shows "load_state (save_state now s) (init_store n) = (None, s)"
proof -
  have th: "deque_of n (trading_history s) = trading_history s"
    and sl: "deque_of n (strategy_logs s) = strategy_logs s"
    using assms by (simp_all add: logs_bounded_def deque_of_id)
  have mh: "max_history (init_store n) = n" by (simp add: init_store_def)
  show ?thesis
    using assms(1)
    by (simp add: load_state_def save_state_def dict_get_def Let_def th sl mh)
qed

text \<open>
  C9. For every reachable store, \<^verbatim>\<open>save_state\<close> followed by \<^verbatim>\<open>load_state\<close> of the
  written file into a fresh store of the same capacity raises nothing and gives a store
  on which every reader (status, positions, predictions, full trade history, full
  strategy log, performance, risk) returns what it returns on the original store. (The
  restored \<^verbatim>\<open>last_update\<close> is the saved one as well; \<^verbatim>\<open>saved_at\<close> is not read
  back.)
\<close>

theorem C9_persist_restore:
  assumes "reachable n s"
  shows "fst (load_state (save_state now s) (init_store n)) = None \<and>
         get_system_status (snd (load_state (save_state now s) (init_store n)))
           = get_system_status s \<and>
         get_positions (snd (load_state (save_state now s) (init_store n)))
           = get_positions s \<and>
         get_predictions (snd (load_state (save_state now s) (init_store n)))
           = get_predictions s \<and>
         get_trading_history (Some 0) (snd (load_state (save_state now s) (init_store n)))
           = get_trading_history (Some 0) s \<and>
         get_strategy_logs (Some 0) (snd (load_state (save_state now s) (init_store n)))
           = get_strategy_logs (Some 0) s \<and>
         get_performance_stats (snd (load_state (save_state now s) (init_store n)))
           = get_performance_stats s \<and>
         get_risk_metrics (snd (load_state (save_state now s) (init_store n)))
           = get_risk_metrics s"
proof -
  from reachable_invariant [OF assms] have "max_history s = n" "logs_bounded s" by simp_all
  then have "load_state (save_state now s) (init_store n) = (None, s)"
    by (rule save_load_roundtrip)
  then show ?thesis by simp
qed

theorem C9_persist_witness:
  "reachable 2 (after (update_state ''t'' ''u'' (trade_event [(''order_id'', JNum 7)]) (init_store 2))) \<and>
   fst (load_state
          (save_state ''now''
             (after (update_state ''t'' ''u'' (trade_event [(''order_id'', JNum 7)]) (init_store 2))))
          (init_store 2)) = None \<and>
   get_trading_history (Some 0)
     (snd (load_state
          (save_state ''now''
             (after (update_state ''t'' ''u'' (trade_event [(''order_id'', JNum 7)]) (init_store 2))))
          (init_store 2)))
     = [JObj [(''timestamp'', JStr ''t''), (''order_id'', JNum 7)]]"
proof -
  let ?s = "after (update_state ''t'' ''u'' (trade_event [(''order_id'', JNum 7)]) (init_store 2))"
  have r: "reachable 2 ?s" by (intro reachable.intros)
  have h: "trading_history ?s = [JObj [(''timestamp'', JStr ''t''), (''order_id'', JNum 7)]]"
    by (simp add: update_state_trading_history trade_event_def data_of_def init_store_def
        deque_append_def stamped_def dict_update_def dict_set_def)
  show ?thesis
    using r C9_persist_restore [OF r, of "''now''"] h
    by (simp add: get_trading_history_def)
qed

subsection \<open>Risk metrics after a positions event\<close>

lemma risk_value_num_field [simp]: "risk_value k s = num_field (risk_metrics s) k"
  by (cases "risk_metrics s") (simp_all add: risk_value_def get_risk_metrics_def num_field_def)

lemma py_max_num:
  "num_of a = Some x \<Longrightarrow> num_of b = Some y \<Longrightarrow>
   \<exists>m. py_max a b = Inr m \<and> num_of m = Some (max x y)"
  by (auto simp: py_max_def max_def)

lemma risk_loop_result:
  assumes "priced p" and "distinct (map fst p)"
    and "num_of (acc_max a) = Some m" and "num_of (acc_reserve a) = Some r"
  shows "\<exists>a'. risk_loop p a = Inr a' \<and>
           acc_total a' = acc_total a + spec_total_value p \<and>
           acc_count a' = acc_count a + length (non_reserve p) \<and>
           num_of (acc_max a')
             = Some (fold max (map (\<lambda>(asset, info). usd_of info) (non_reserve p)) m) \<and>
           num_of (acc_reserve a')
             = Some (case map_of p ''USDT'' of None \<Rightarrow> r | Some info \<Rightarrow> usd_of info)"
  using assms
proof (induction p arbitrary: a m r)
  case Nil
  then show ?case by (simp add: spec_total_value_def non_reserve_def)
next
  case (Cons entry p)
  obtain asset info where e: "entry = (asset, info)" by (cases entry) auto
  from Cons.prems(1) e obtain i x where
    i: "info = JObj i" and x: "num_of (dict_get i ''usd_value'' (JNum 0)) = Some x"
    and pp: "priced p"
    by (cases info) (auto simp: priced_def)
  have u: "usd_of info = x" by (simp add: usd_of_def i x)
  have dp: "distinct (map fst p)" and notin: "asset \<notin> fst ` set p"
    using Cons.prems(2) e by simp_all
  let ?a1 = "a\<lparr>acc_total := acc_total a + x\<rparr>"
  show ?case
  proof (cases "asset = ''USDT''")
    case True
    let ?a2 = "?a1\<lparr>acc_reserve := dict_get i ''usd_value'' (JNum 0)\<rparr>"
    have step: "risk_loop (entry # p) a = risk_loop p ?a2"
      by (simp add: e i x True Let_def)
    have none: "map_of p ''USDT'' = None"
      using notin True by (simp add: map_of_eq_None_iff)
    from Cons.IH [OF pp dp, of ?a2 m x] Cons.prems(3) x
    obtain a' where a': "risk_loop p ?a2 = Inr a'"
      "acc_total a' = acc_total ?a2 + spec_total_value p"
      "acc_count a' = acc_count ?a2 + length (non_reserve p)"
      "num_of (acc_max a')
         = Some (fold max (map (\<lambda>(asset, info). usd_of info) (non_reserve p)) m)"
      "num_of (acc_reserve a') = Some (case map_of p ''USDT'' of None \<Rightarrow> x | Some info \<Rightarrow> usd_of info)"
      by auto
    show ?thesis
      unfolding step using a' none
      by (intro exI [of _ a']) (simp add: e True u spec_total_value_def non_reserve_def)
  next
    case False
    from py_max_num [OF Cons.prems(3) x] obtain mx where
      mx: "py_max (acc_max a) (dict_get i ''usd_value'' (JNum 0)) = Inr mx"
      "num_of mx = Some (max m x)" by auto
    let ?a2 = "?a1\<lparr>acc_count := acc_count ?a1 + 1, acc_max := mx\<rparr>"
    have step: "risk_loop (entry # p) a = risk_loop p ?a2"
      by (simp add: e i x False Let_def mx)
    from Cons.IH [OF pp dp, of ?a2 "max m x" r] Cons.prems(4) mx(2)
    obtain a' where a': "risk_loop p ?a2 = Inr a'"
      "acc_total a' = acc_total ?a2 + spec_total_value p"
      "acc_count a' = acc_count ?a2 + length (non_reserve p)"
      "num_of (acc_max a')
         = Some (fold max (map (\<lambda>(asset, info). usd_of info) (non_reserve p)) (max m x))"
      "num_of (acc_reserve a') = Some (case map_of p ''USDT'' of None \<Rightarrow> r | Some info \<Rightarrow> usd_of info)"
      by auto
    show ?thesis
      unfolding step using a' False
      by (intro exI [of _ a']) (simp add: e u spec_total_value_def non_reserve_def max.commute)
  qed
qed

lemma fold_max_Max: "fold max xs (0::rat) = Max (insert 0 (set xs))"
proof -
  have "Max (set (0 # xs)) = fold max xs 0" by (rule Max.set_eq_fold)
  then show ?thesis by simp
qed

lemma calculate_risk_metrics_result:
  assumes pos: "positions s = JObj p" and ne: "p \<noteq> []"
    and pr: "priced p" and di: "distinct (map fst p)"
    and rm: "risk_metrics s = JObj rm"
  shows "\<exists>rm'. calculate_risk_metrics s = (None, s\<lparr>risk_metrics := JObj rm'\<rparr>) \<and>
           num_field (JObj rm') ''total_value'' = Some (spec_total_value p) \<and>
           num_field (JObj rm') ''usdt_reserve'' = Some (spec_reserve p) \<and>
           num_field (JObj rm') ''total_exposure'' = Some (spec_exposure p) \<and>
           num_field (JObj rm') ''max_single_position'' = Some (code_max_single_position p) \<and>
           num_field (JObj rm') ''position_count'' = Some (of_nat (length (non_reserve p)))"
proof -
  have m0: "num_of (acc_max risk_acc0) = Some 0" and r0: "num_of (acc_reserve risk_acc0) = Some 0"
    by (simp_all add: risk_acc0_def)
  from risk_loop_result [OF pr di m0 r0] obtain a where
    loop: "risk_loop p risk_acc0 = Inr a"
    and tot: "acc_total a = spec_total_value p"
    and cnt: "acc_count a = length (non_reserve p)"
    and mx: "num_of (acc_max a) = Some (code_max_single_position p)"
    and rs: "num_of (acc_reserve a) = Some (spec_reserve p)"
    by (auto simp: risk_acc0_def fold_max_Max code_max_single_position_def spec_reserve_def)
  let ?ex = "if acc_total a > 0 then (acc_total a - spec_reserve p) / acc_total a else 0"
  let ?rm' = "dict_update rm
                [(''total_exposure'', JNum ?ex),
                 (''max_single_position'', acc_max a),
                 (''position_count'', JNum (of_nat (acc_count a))),
                 (''usdt_reserve'', acc_reserve a),
                 (''total_value'', JNum (acc_total a))]"
  have c: "calculate_risk_metrics s = (None, s\<lparr>risk_metrics := JObj ?rm'\<rparr>)"
    using ne by (simp add: calculate_risk_metrics_def pos loop rs rm obj_update_def Let_def)
  have f1: "num_field (JObj ?rm') ''total_value'' = Some (spec_total_value p)"
    by (simp add: dict_update_def num_field_dict_set tot)
  have f2: "num_field (JObj ?rm') ''usdt_reserve'' = Some (spec_reserve p)"
    by (simp add: dict_update_def num_field_dict_set rs)
  have f3: "num_field (JObj ?rm') ''total_exposure'' = Some (spec_exposure p)"
    by (simp add: dict_update_def num_field_dict_set tot spec_exposure_def)
  have f4: "num_field (JObj ?rm') ''max_single_position'' = Some (code_max_single_position p)"
    by (simp add: dict_update_def num_field_dict_set mx)
  have f5: "num_field (JObj ?rm') ''position_count'' = Some (of_nat (length (non_reserve p)))"
    by (simp add: dict_update_def num_field_dict_set cnt)
  show ?thesis using c f1 f2 f3 f4 f5 by (intro exI [of _ ?rm']) (intro conjI)
qed

lemma update_state_positions_risk:
  "risk_metrics (after (update_state t_rec t_stamp (positions_event p) s))
     = risk_metrics (snd (calculate_risk_metrics (s\<lparr>positions := JObj p\<rparr>)))"
  by (simp add: after_update_state dispatch_def positions_event_def update_positions_def Let_def
      stamp_last_update_frame split: option.splits)

lemma update_state_positions_positions:
  "positions (after (update_state t_rec t_stamp (positions_event p) s)) = JObj p"
  by (simp add: after_update_state dispatch_def positions_event_def update_positions_def Let_def
      stamp_last_update_frame calculate_risk_metrics_frame split: option.splits)

lemma calculate_risk_metrics_empty:
  "positions s = JObj [] \<Longrightarrow> calculate_risk_metrics s = (None, s)"
  by (simp add: calculate_risk_metrics_def)

lemma btc_usdt_facts:
  "priced btc_usdt" "distinct (map fst btc_usdt)" "btc_usdt \<noteq> []"
  "spec_total_value btc_usdt = 1000" "spec_reserve btc_usdt = 300"
  "spec_exposure btc_usdt = 7 / 10" "code_max_single_position btc_usdt = 700"
  "length (non_reserve btc_usdt) = 1"
  by (simp_all add: btc_usdt_def holding_def priced_def dict_get_def usd_of_def
      spec_total_value_def spec_reserve_def spec_exposure_def code_max_single_position_def
      non_reserve_def)

lemma dust_facts:
  "priced dust" "distinct (map fst dust)" "dust \<noteq> []"
  "length (non_reserve dust) = 1" "spec_position_count dust = 0"
  by (simp_all add: dust_def holding_def priced_def dict_get_def usd_of_def
      spec_position_count_def non_reserve_def)

lemma short_facts:
  "priced short" "distinct (map fst short)" "short \<noteq> []"
  "code_max_single_position short = 0" "spec_max_single_position short = - 5"
  by (simp_all add: short_def holding_def priced_def dict_get_def usd_of_def
      code_max_single_position_def spec_max_single_position_def non_reserve_def)

lemma init_risk_metrics:
  "\<exists>rm. risk_metrics (init_store n) = JObj rm"
  by (simp add: init_store_def)

text \<open>
  C1. The claim: after every positions event, an empty position map included,
  \<^verbatim>\<open>get_risk_metrics\<close> returns the recomputation of section 4.2 on the installed map.
  It fails in three ways. \<^verbatim>\<open>_calculate_risk_metrics\<close> returns at once when the map
  is empty (\<^verbatim>\<open>if not self.positions: return\<close>), so after an empty map the metrics of
  the previous map stay: here a total value of 1000 where the recomputation gives 0. The
  loop counts every non-reserve asset, whatever its value: a single holding worth 0
  gives a position count of 1 where the recomputation gives 0. And the loop starts its
  maximum from 0.0: a single holding worth -5 gives a largest position of 0 where the
  maximum over the non-reserve assets is -5.
\<close>


theorem C1_risk_counterexample:
  "get_positions
     (after (update_state ''t2'' ''u2'' (positions_event [])
        (after (update_state ''t1'' ''u1'' (positions_event btc_usdt) (init_store 1000)))))
     = Inr (JObj []) \<and>
   risk_value ''total_value''
     (after (update_state ''t2'' ''u2'' (positions_event [])
        (after (update_state ''t1'' ''u1'' (positions_event btc_usdt) (init_store 1000)))))
     = Some 1000 \<and>
   spec_total_value [] = 0 \<and>
   risk_value ''position_count''
     (after (update_state ''t1'' ''u1'' (positions_event dust) (init_store 1000))) = Some 1 \<and>
   spec_position_count dust = 0 \<and>
   risk_value ''max_single_position''
     (after (update_state ''t1'' ''u1'' (positions_event short) (init_store 1000))) = Some 0 \<and>
   spec_max_single_position short = - 5"
proof -
  let ?s1 = "after (update_state ''t1'' ''u1'' (positions_event btc_usdt) (init_store 1000))"
  let ?s2 = "after (update_state ''t2'' ''u2'' (positions_event []) ?s1)"
  let ?s3 = "after (update_state ''t1'' ''u1'' (positions_event dust) (init_store 1000))"
  let ?s4 = "after (update_state ''t1'' ''u1'' (positions_event short) (init_store 1000))"
  obtain rm where rm: "risk_metrics (init_store 1000) = JObj rm"
    using init_risk_metrics by blast
  have pos: "\<And>p. positions ((init_store 1000)\<lparr>positions := JObj p\<rparr>) = JObj p" by simp
  have rm': "\<And>p. risk_metrics ((init_store 1000)\<lparr>positions := JObj p\<rparr>) = JObj rm"
    using rm by simp
  from calculate_risk_metrics_result
    [OF pos btc_usdt_facts(3) btc_usdt_facts(1) btc_usdt_facts(2) rm']
  have t1: "num_field (risk_metrics ?s1) ''total_value'' = Some 1000"
    by (auto simp: update_state_positions_risk btc_usdt_facts)
  have "risk_metrics ?s2 = risk_metrics ?s1"
    by (simp add: update_state_positions_risk calculate_risk_metrics_empty)
  then have a: "risk_value ''total_value'' ?s2 = Some 1000" using t1 by simp
  from calculate_risk_metrics_result
    [OF pos dust_facts(3) dust_facts(1) dust_facts(2) rm']
  have b: "risk_value ''position_count'' ?s3 = Some 1"
    by (auto simp: update_state_positions_risk dust_facts)
  have c: "get_positions ?s2 = Inr (JObj [])"
    by (simp add: get_positions_def update_state_positions_positions)
  have d: "spec_total_value [] = 0" by (simp add: spec_total_value_def)
  from calculate_risk_metrics_result
    [OF pos short_facts(3) short_facts(1) short_facts(2) rm']
  have e: "risk_value ''max_single_position'' ?s4 = Some 0"
    by (auto simp: update_state_positions_risk short_facts)
  show ?thesis using a b c d dust_facts(5) e short_facts(5) by (intro conjI)
qed


text \<open>
  C1, as the code has it. The event carries a position map \<open>p\<close> that is a dict (its
  asset keys are distinct) whose every entry is a dict with a numeric or absent
  \<^verbatim>\<open>usd_value\<close> (\<open>priced p\<close>), and the store's risk metrics are a dict. Then
  \<^verbatim>\<open>get_positions\<close> returns that map afterwards. When the map is not empty,
  \<^verbatim>\<open>get_risk_metrics\<close> has: \<^verbatim>\<open>total_value\<close> the sum of \<^verbatim>\<open>usd_value\<close> over all
  assets; \<^verbatim>\<open>usdt_reserve\<close> the \<^verbatim>\<open>usd_value\<close> of the reserve asset, 0 if absent;
  \<^verbatim>\<open>total_exposure\<close> (total - reserve) / total if the total is positive, else 0;
  \<^verbatim>\<open>max_single_position\<close> the largest of 0 and the \<^verbatim>\<open>usd_value\<close>s of the
  non-reserve assets; \<^verbatim>\<open>position_count\<close> the number of non-reserve assets. When the
  map is empty, \<^verbatim>\<open>get_risk_metrics\<close> returns what it returned before.
\<close>


theorem C1_risk_recomputed:
  assumes "priced p" and "distinct (map fst p)" and "risk_metrics s = JObj rm"
  shows "get_positions (after (update_state t_rec t_stamp (positions_event p) s))
           = Inr (JObj p) \<and>
         (p \<noteq> [] \<longrightarrow>
            risk_value ''total_value'' (after (update_state t_rec t_stamp (positions_event p) s))
              = Some (spec_total_value p) \<and>
            risk_value ''usdt_reserve'' (after (update_state t_rec t_stamp (positions_event p) s))
              = Some (spec_reserve p) \<and>
            risk_value ''total_exposure'' (after (update_state t_rec t_stamp (positions_event p) s))
              = Some (spec_exposure p) \<and>
            risk_value ''max_single_position''
                (after (update_state t_rec t_stamp (positions_event p) s))
              = Some (code_max_single_position p) \<and>
            risk_value ''position_count''
                (after (update_state t_rec t_stamp (positions_event p) s))
              = Some (of_nat (length (non_reserve p)))) \<and>
         (p = [] \<longrightarrow>
            get_risk_metrics (after (update_state t_rec t_stamp (positions_event p) s))
              = get_risk_metrics s)"
proof -
  let ?s' = "after (update_state t_rec t_stamp (positions_event p) s)"
  have a: "get_positions ?s' = Inr (JObj p)"
    by (simp add: get_positions_def update_state_positions_positions)
  have b: "risk_value ''total_value'' ?s' = Some (spec_total_value p) \<and>
           risk_value ''usdt_reserve'' ?s' = Some (spec_reserve p) \<and>
           risk_value ''total_exposure'' ?s' = Some (spec_exposure p) \<and>
           risk_value ''max_single_position'' ?s' = Some (code_max_single_position p) \<and>
           risk_value ''position_count'' ?s' = Some (of_nat (length (non_reserve p)))"
    if ne: "p \<noteq> []"
  proof -
    have pos: "positions (s\<lparr>positions := JObj p\<rparr>) = JObj p" by simp
    have rm: "risk_metrics (s\<lparr>positions := JObj p\<rparr>) = JObj rm" using assms(3) by simp
    from calculate_risk_metrics_result [OF pos ne assms(1) assms(2) rm]
    obtain rm' where
      c: "calculate_risk_metrics (s\<lparr>positions := JObj p\<rparr>)
            = (None, s\<lparr>positions := JObj p, risk_metrics := JObj rm'\<rparr>)"
      and f: "num_field (JObj rm') ''total_value'' = Some (spec_total_value p)"
        "num_field (JObj rm') ''usdt_reserve'' = Some (spec_reserve p)"
        "num_field (JObj rm') ''total_exposure'' = Some (spec_exposure p)"
        "num_field (JObj rm') ''max_single_position'' = Some (code_max_single_position p)"
        "num_field (JObj rm') ''position_count'' = Some (of_nat (length (non_reserve p)))"
      by auto
    have "risk_metrics ?s' = JObj rm'"
      by (simp add: update_state_positions_risk c)
    then show ?thesis using f by simp
  qed
  have c: "get_risk_metrics ?s' = get_risk_metrics s" if "p = []"
    using that
    by (simp add: get_risk_metrics_def update_state_positions_risk calculate_risk_metrics_empty)
  show ?thesis
  proof (intro conjI impI)
    show "get_positions ?s' = Inr (JObj p)" by (rule a)
  next
    assume "p \<noteq> []"
    note r = b [OF this]
    show "risk_value ''total_value'' ?s' = Some (spec_total_value p)" using r by (elim conjE)
    show "risk_value ''usdt_reserve'' ?s' = Some (spec_reserve p)" using r by (elim conjE)
    show "risk_value ''total_exposure'' ?s' = Some (spec_exposure p)" using r by (elim conjE)
    show "risk_value ''max_single_position'' ?s' = Some (code_max_single_position p)"
      using r by (elim conjE)
    show "risk_value ''position_count'' ?s' = Some (of_nat (length (non_reserve p)))"
      using r by (elim conjE)
  next
    assume "p = []"
    then show "get_risk_metrics ?s' = get_risk_metrics s" by (rule c)
  qed
qed

theorem C1_risk_witness:
  "priced btc_usdt \<and> distinct (map fst btc_usdt) \<and> btc_usdt \<noteq> [] \<and>
   risk_value ''total_value''
     (after (update_state ''t1'' ''u1'' (positions_event btc_usdt) (init_store 1000)))
     = Some 1000 \<and>
   risk_value ''usdt_reserve''
     (after (update_state ''t1'' ''u1'' (positions_event btc_usdt) (init_store 1000)))
     = Some 300 \<and>
   risk_value ''total_exposure''
     (after (update_state ''t1'' ''u1'' (positions_event btc_usdt) (init_store 1000)))
     = Some (7 / 10) \<and>
   risk_value ''max_single_position''
     (after (update_state ''t1'' ''u1'' (positions_event btc_usdt) (init_store 1000)))
     = Some 700 \<and>
   risk_value ''position_count''
     (after (update_state ''t1'' ''u1'' (positions_event btc_usdt) (init_store 1000)))
     = Some 1"
proof -
  obtain rm where rm: "risk_metrics (init_store 1000) = JObj rm"
    using init_risk_metrics by blast
  show ?thesis
    using C1_risk_recomputed [OF btc_usdt_facts(1) btc_usdt_facts(2) rm, of "''t1''" "''u1''"]
      btc_usdt_facts
    by simp
qed

text \<open>Where every non-reserve asset has a positive value, the two differences from the
  specification's recomputation vanish.\<close>

lemma positive_holdings_agree:
  assumes "list_all (\<lambda>(asset, info). usd_of info > 0) (non_reserve p)"
  shows "code_max_single_position p = spec_max_single_position p"
    and "length (non_reserve p) = spec_position_count p"
proof -
  let ?vs = "map (\<lambda>(asset, info). usd_of info) (non_reserve p)"
  have pos: "\<forall>v \<in> set ?vs. 0 < v"
    using assms by (auto simp: list_all_iff)
  show "code_max_single_position p = spec_max_single_position p"
  proof (cases "non_reserve p = []")
    case True
    then show ?thesis
      by (simp add: code_max_single_position_def spec_max_single_position_def)
  next
    case False
    then have ne: "set ?vs \<noteq> {}" by simp
    have "Max (insert 0 (set ?vs)) = max 0 (Max (set ?vs))"
      using ne by (simp add: Max_insert)
    moreover have "0 < Max (set ?vs)"
    proof -
      from ne obtain v where v: "v \<in> set ?vs" by (meson ex_in_conv)
      then have "0 < v" using pos by blast
      also have "v \<le> Max (set ?vs)" using v by (intro Max_ge) simp_all
      finally show ?thesis .
    qed
    ultimately show ?thesis
      using False
      by (simp add: code_max_single_position_def spec_max_single_position_def max_def)
  qed
  show "length (non_reserve p) = spec_position_count p"
    using assms
    by (simp add: spec_position_count_def list_all_iff filter_id_conv)
qed

end
